theory Spec2Isabelle
  imports Complex_Main
begin

section \<open>Python values and string operations\<close>

text \<open>
  Strings are lists of characters. The models below treat ASCII text: the whitespace set of
  \<^verbatim>\<open>str.strip\<close> and the line boundaries of \<^verbatim>\<open>str.splitlines\<close> are the ASCII ones, and
  \<^verbatim>\<open>str.lower\<close> maps \<^verbatim>\<open>A-Z\<close> only.
\<close>

definition newline :: char where
  "newline = CHR ''\<newline>''"

definition is_space :: "char \<Rightarrow> bool" where
  "is_space c = (c \<in> set [CHR '' '', CHR 0x09, CHR 0x0A, CHR 0x0B, CHR 0x0C, CHR 0x0D,
                            CHR 0x1C, CHR 0x1D, CHR 0x1E, CHR 0x1F])"

definition lstrip :: "string \<Rightarrow> string" where
  "lstrip s = dropWhile is_space s"

definition rstrip :: "string \<Rightarrow> string" where
  "rstrip s = rev (dropWhile is_space (rev s))"

definition strip :: "string \<Rightarrow> string" where
  "strip s = lstrip (rstrip s)"

definition startswith :: "string \<Rightarrow> string \<Rightarrow> bool" where
  "startswith s p = (take (length p) s = p)"

text \<open>\<^verbatim>\<open>sub in s\<close> on strings.\<close>

fun contains :: "string \<Rightarrow> string \<Rightarrow> bool" where
  "contains sub [] = (sub = [])"
| "contains sub (c # cs) = (startswith (c # cs) sub \<or> contains sub cs)"

definition lower_char :: "char \<Rightarrow> char" where
  "lower_char c = (let n = (of_char c :: nat) in if 65 \<le> n \<and> n \<le> 90 then char_of (n + 32) else c)"

definition lower :: "string \<Rightarrow> string" where
  "lower s = map lower_char s"

text \<open>\<^verbatim>\<open>s.split(sep)\<close> for a one-character separator: the result is never empty.\<close>

fun split_char :: "char \<Rightarrow> string \<Rightarrow> string list" where
  "split_char sep [] = [[]]"
| "split_char sep (c # cs) =
     (if c = sep then [] # split_char sep cs
      else (case split_char sep cs of
              [] \<Rightarrow> [[c]]
            | w # ws \<Rightarrow> (c # w) # ws))"

text \<open>\<^verbatim>\<open>sep.join(xs)\<close>.\<close>

fun join :: "string \<Rightarrow> string list \<Rightarrow> string" where
  "join sep [] = []"
| "join sep [x] = x"
| "join sep (x # y # ys) = x @ sep @ join sep (y # ys)"

text \<open>
  The values a violation record can hold: the records come out of \<^verbatim>\<open>json.loads\<close> on a
  model response, so a field may hold any JSON value. A dictionary is an association list
  with distinct keys, in insertion order.
\<close>

datatype pyval =
    PNone
  | PBool bool
  | PInt int
  | PFloat real
  | PStr string
  | PList "pyval list"
  | PDict "(string \<times> pyval) list"

datatype py_error =
    TypeError
  | AttributeError
  | ValueError
  | ZeroDivisionError
  | JSONDecodeError
  | OtherError string

text \<open>\<^verbatim>\<open>d.get(k, default)\<close>.\<close>

definition dict_get :: "(string \<times> pyval) list \<Rightarrow> string \<Rightarrow> pyval \<Rightarrow> pyval" where
  "dict_get d k dflt = (case map_of d k of None \<Rightarrow> dflt | Some v \<Rightarrow> v)"

text \<open>\<^verbatim>\<open>v.strip()\<close> on a value that need not be a string.\<close>

definition py_strip :: "pyval \<Rightarrow> py_error + string" where
  "py_strip v = (case v of PStr s \<Rightarrow> Inr (strip s) | _ \<Rightarrow> Inl AttributeError)"

text \<open>
  \<^verbatim>\<open>xs.sort(key=key, reverse=True)\<close>: CPython reverses the list, sorts it with its stable
  ascending sort and reverses the result, so that equal keys keep their original order.
\<close>

definition py_sort_reverse :: "('a \<Rightarrow> int) \<Rightarrow> 'a list \<Rightarrow> 'a list" where
  "py_sort_reverse key xs = rev (sort_key key (rev xs))"

section \<open>The diff generator (src/diff/diff\_generator.py)\<close>

record CodeFix =
  file_path :: string
  line_number :: int
  column_number :: pyval
  original_code :: string
  fixed_code :: string
  violation_description :: pyval
  fix_rule_id :: pyval
  confidence_score :: pyval

text \<open>
  The five pattern fixers \<^verbatim>\<open>_fix_indentation\<close>, \<^verbatim>\<open>_fix_spacing\<close>, \<^verbatim>\<open>_fix_imports\<close>,
  \<^verbatim>\<open>_fix_line_length\<close> and \<^verbatim>\<open>_fix_naming_convention\<close> rewrite one line with regular
  expressions. They are parameters here: every result below holds whatever string they
  return, and also when they raise.
\<close>

record auto_fixers =
  fix_indentation :: "string \<Rightarrow> py_error + string"
  fix_spacing :: "string \<Rightarrow> py_error + string"
  fix_imports :: "string \<Rightarrow> py_error + string"
  fix_line_length :: "string \<Rightarrow> py_error + string"
  fix_naming_convention :: "string \<times> string \<Rightarrow> py_error + string"

text \<open>
  \<^verbatim>\<open>_generate_auto_fix\<close>: the first keyword found in the lower-cased description selects the
  fixer; with no keyword the result is the right-stripped line plus a newline. Any
  exception (a description that is not a string, a fixer that raises) gives the original
  line.
\<close>

definition generate_auto_fix :: "auto_fixers \<Rightarrow> string \<Rightarrow> string \<Rightarrow> pyval \<Rightarrow> string" where
  "generate_auto_fix fx original_line problematic_code description =
     (case description of
        PStr desc \<Rightarrow>
          (let d = lower desc;
               r = (if contains ''indentation'' d then fix_indentation fx original_line
                    else if contains ''space'' d then fix_spacing fx original_line
                    else if contains ''import'' d then fix_imports fx original_line
                    else if contains ''line too long'' d then fix_line_length fx original_line
                    else if contains ''naming'' d \<or> contains ''convention'' d
                      then fix_naming_convention fx (original_line, problematic_code)
                    else Inr (rstrip original_line @ [newline]))
           in (case r of Inl e \<Rightarrow> original_line | Inr s \<Rightarrow> s))
      | _ \<Rightarrow> original_line)"

text \<open>
  The guard of \<^verbatim>\<open>_create_fix_from_violation\<close> on the line number:
  \<^verbatim>\<open>line_number is None or line_number < 1 or line_number > len(lines)\<close>, then the index
  \<^verbatim>\<open>lines[line_number - 1]\<close>. \<open>Inr None\<close> is the early \<^verbatim>\<open>return None\<close>; a string, list or
  dictionary cannot be compared with an integer and a float cannot index a list.
\<close>

definition check_line_number :: "pyval \<Rightarrow> nat \<Rightarrow> py_error + int option" where
  "check_line_number v len =
     (case v of
        PNone \<Rightarrow> Inr None
      | PInt n \<Rightarrow> Inr (if n < 1 \<or> n > int len then None else Some n)
      | PBool b \<Rightarrow> (let n = (if b then 1 else 0) in
                     Inr (if n < 1 \<or> n > int len then None else Some n))
      | PFloat f \<Rightarrow> (if f < 1 \<or> f > real len then Inr None else Inl TypeError)
      | _ \<Rightarrow> Inl TypeError)"

text \<open>The replacement text: the stripped suggested fix or, when that is empty and the
  stripped problematic code is not, the automatic fix.\<close>

definition suggested_fix_of :: "auto_fixers \<Rightarrow> (string \<times> pyval) list \<Rightarrow> string \<Rightarrow> py_error + string" where
  "suggested_fix_of fx d original_line =
     (case py_strip (dict_get d ''suggested_fix'' (PStr [])) of
        Inl e \<Rightarrow> Inl e
      | Inr suggested_fix \<Rightarrow>
          (if suggested_fix = [] then
             (case py_strip (dict_get d ''problematic_code'' (PStr [])) of
                Inl e \<Rightarrow> Inl e
              | Inr problematic_code \<Rightarrow>
                  (if problematic_code \<noteq> [] then
                     Inr (generate_auto_fix fx original_line problematic_code
                            (dict_get d ''violation_description'' (PStr [])))
                   else Inr suggested_fix))
           else Inr suggested_fix))"

text \<open>The body of the \<^verbatim>\<open>try\<close> block of \<^verbatim>\<open>_create_fix_from_violation\<close>.\<close>

definition create_fix_body :: "auto_fixers \<Rightarrow> pyval \<Rightarrow> string list \<Rightarrow> string \<Rightarrow> py_error + CodeFix option" where
  "create_fix_body fx violation lines path =
     (case violation of
        PDict d \<Rightarrow>
          (case check_line_number (dict_get d ''line_number'' PNone) (length lines) of
             Inl e \<Rightarrow> Inl e
           | Inr None \<Rightarrow> Inr None
           | Inr (Some n) \<Rightarrow>
               (let original_line = lines ! nat (n - 1) in
                case suggested_fix_of fx d original_line of
                  Inl e \<Rightarrow> Inl e
                | Inr suggested_fix \<Rightarrow>
                    (if suggested_fix = [] then Inr None
                     else Inr (Some \<lparr>file_path = path,
                                     line_number = n,
                                     column_number = dict_get d ''column_number'' PNone,
                                     original_code = original_line,
                                     fixed_code = suggested_fix,
                                     violation_description = dict_get d ''violation_description'' (PStr []),
                                     fix_rule_id = dict_get d ''rule_id'' (PStr ''unknown''),
                                     confidence_score = dict_get d ''confidence_score'' (PFloat 0)\<rparr>))))
      | _ \<Rightarrow> Inl AttributeError)"

text \<open>\<^verbatim>\<open>_create_fix_from_violation\<close>: the \<^verbatim>\<open>except Exception\<close> clause returns \<^verbatim>\<open>None\<close>.\<close>

definition create_fix_from_violation :: "auto_fixers \<Rightarrow> pyval \<Rightarrow> string list \<Rightarrow> string \<Rightarrow> CodeFix option" where
  "create_fix_from_violation fx violation lines path =
     (case create_fix_body fx violation lines path of
        Inl e \<Rightarrow> None
      | Inr r \<Rightarrow> r)"

text \<open>The loop of \<^verbatim>\<open>_parse_violations_to_fixes\<close> that appends each fix created.\<close>

fun collect_fixes :: "auto_fixers \<Rightarrow> pyval list \<Rightarrow> string list \<Rightarrow> string \<Rightarrow> CodeFix list" where
  "collect_fixes fx [] lines path = []"
| "collect_fixes fx (violation # violations) lines path =
     (case create_fix_from_violation fx violation lines path of
        None \<Rightarrow> collect_fixes fx violations lines path
      | Some fix \<Rightarrow> fix # collect_fixes fx violations lines path)"

definition parse_violations_to_fixes :: "auto_fixers \<Rightarrow> string \<Rightarrow> pyval list \<Rightarrow> string \<Rightarrow> CodeFix list" where
  "parse_violations_to_fixes fx path violations file_content =
     (let lines = split_char newline file_content;
          fixes = collect_fixes fx violations lines path
      in py_sort_reverse line_number fixes)"

text \<open>The loop of \<^verbatim>\<open>_apply_fixes\<close> over the list of lines, and the function itself.\<close>

fun apply_fixes_loop :: "string list \<Rightarrow> CodeFix list \<Rightarrow> string list" where
  "apply_fixes_loop lines [] = lines"
| "apply_fixes_loop lines (fix # fixes) =
     apply_fixes_loop
       (if 1 \<le> line_number fix \<and> line_number fix \<le> int (length lines)
        then lines[nat (line_number fix - 1) := rstrip (fixed_code fix)]
        else lines)
       fixes"

definition apply_fixes :: "string \<Rightarrow> CodeFix list \<Rightarrow> string" where
  "apply_fixes original_content fixes =
     join [newline] (apply_fixes_loop (split_char newline original_content) fixes)"

text \<open>
  The spec's wording for the replacement written by \<^verbatim>\<open>apply\<close>: the text ``right-trimmed of
  line terminators''. The code calls \<^verbatim>\<open>rstrip()\<close>, modelled by \<open>rstrip\<close> above.
\<close>

definition rtrim_line_terminators :: "string \<Rightarrow> string" where
  "rtrim_line_terminators s = rev (dropWhile (\<lambda>c. c = CHR 0x0A \<or> c = CHR 0x0D) (rev s))"

section \<open>The worker agent (src/agents/worker\_agent.py)\<close>

record WorkerResult =
  worker_id :: string
  result_file_path :: string
  success :: bool
  result_violations :: pyval
  processing_time :: real
  error_message :: "string option"

text \<open>\<^verbatim>\<open>RelevantRule\<close> and the two fields of \<^verbatim>\<open>RAGContext\<close> that \<^verbatim>\<open>process_file\<close> reads
  (src/analysis/rag\_system.py).\<close>

record RelevantRule =
  rule_id :: string
  title :: string
  description :: string
  category :: string
  severity :: string
  similarity :: real
  rule_context :: "string option"

record RAGContext =
  relevant_rules :: "RelevantRule list"
  analysis_prompt :: string

text \<open>\<^verbatim>\<open>s.find(c)\<close> and \<^verbatim>\<open>s.rfind(c)\<close> for one character: \<open>-1\<close> when it does not occur.\<close>

definition find_char :: "char \<Rightarrow> string \<Rightarrow> int" where
  "find_char c s = (if c \<in> set s then int (length (takeWhile (\<lambda>x. x \<noteq> c) s)) else - 1)"

definition rfind_char :: "char \<Rightarrow> string \<Rightarrow> int" where
  "rfind_char c s =
     (if c \<in> set s then int (length s) - 1 - int (length (takeWhile (\<lambda>x. x \<noteq> c) (rev s)))
      else - 1)"

text \<open>The slice \<^verbatim>\<open>s[i:j]\<close> for \<open>0 \<le> i\<close> and \<open>0 \<le> j\<close>.\<close>

definition slice :: "'a list \<Rightarrow> int \<Rightarrow> int \<Rightarrow> 'a list" where
  "slice s i j = take (nat (j - i)) (drop (nat i) s)"

text \<open>The record that the line-oriented extraction builds for a bullet line.\<close>

definition manual_violation :: "string \<Rightarrow> (string \<times> pyval) list" where
  "manual_violation line =
     [(''rule_id'', PStr ''manual_extract''),
      (''violation_description'', PStr (drop 2 line)),
      (''severity'', PStr ''medium''),
      (''confidence_score'', PFloat 0.7)]"

text \<open>
  The loop of the line-oriented extraction in \<^verbatim>\<open>_parse_llm_response\<close>. The state is the
  list \<^verbatim>\<open>violations\<close> and the dictionary \<^verbatim>\<open>current_violation\<close>, which starts empty (false).
\<close>

fun manual_extract_loop ::
  "string list \<Rightarrow> pyval list \<Rightarrow> (string \<times> pyval) list \<Rightarrow> pyval list \<times> (string \<times> pyval) list" where
  "manual_extract_loop [] violations current_violation = (violations, current_violation)"
| "manual_extract_loop (line # lines) violations current_violation =
     (let l = strip line in
      if startswith l ''- '' \<or> startswith l ''* '' then
        manual_extract_loop lines
          (if current_violation \<noteq> [] then violations @ [PDict current_violation] else violations)
          (manual_violation l)
      else manual_extract_loop lines violations current_violation)"

definition manual_extract :: "string \<Rightarrow> pyval list" where
  "manual_extract response =
     (case manual_extract_loop (split_char newline response) [] [] of
        (violations, current_violation) \<Rightarrow>
          (if current_violation \<noteq> [] then violations @ [PDict current_violation] else violations))"

text \<open>
  \<^verbatim>\<open>_parse_llm_response\<close>. \<^verbatim>\<open>json.loads\<close> is a parameter: on a text that starts with a
  brace it returns a dictionary or raises \<^verbatim>\<open>JSONDecodeError\<close>. The \<^verbatim>\<open>except Exception\<close>
  clause around the whole body returns the empty list.
\<close>

definition parse_llm_response ::
  "(string \<Rightarrow> py_error + (string \<times> pyval) list) \<Rightarrow> string \<Rightarrow> pyval" where
  "parse_llm_response json_loads response =
     (let json_start = find_char CHR ''{'' response;
          json_end = rfind_char CHR ''}'' response + 1
      in if json_start \<ge> 0 \<and> json_end > json_start then
           (case json_loads (slice response json_start json_end) of
              Inl e \<Rightarrow> PList []
            | Inr parsed_response \<Rightarrow>
                (case map_of parsed_response ''violations'' of
                   Some v \<Rightarrow> v
                 | None \<Rightarrow> PList (manual_extract response)))
         else PList (manual_extract response))"

text \<open>\<^verbatim>\<open>len(v)\<close> on a value that need not be sized.\<close>

definition py_len :: "pyval \<Rightarrow> py_error + nat" where
  "py_len v =
     (case v of
        PStr s \<Rightarrow> Inr (length s)
      | PList xs \<Rightarrow> Inr (length xs)
      | PDict d \<Rightarrow> Inr (length d)
      | _ \<Rightarrow> Inl TypeError)"

text \<open>
  The collaborators of \<^verbatim>\<open>process_file\<close>: the code parser, the retrieval system, the language
  model (with the text taken out of its response) and \<^verbatim>\<open>json.loads\<close>. \<open>Inl\<close> of the first
  three carries the message of the exception raised. The database writes
  \<^verbatim>\<open>_update_file_status\<close> and \<^verbatim>\<open>_store_violations\<close> catch their own exceptions and return
  nothing, so they do not appear.
\<close>

record 'a collaborators =
  parse_file :: "string \<Rightarrow> string + 'a"
  generate_analysis_context :: "'a \<Rightarrow> string + RAGContext"
  ainvoke :: "string \<Rightarrow> string + string"
  loads :: "string \<Rightarrow> py_error + (string \<times> pyval) list"

text \<open>The rule-based fallback of \<^verbatim>\<open>process_file\<close>: one record for each retrieved rule.\<close>

definition fallback_violation :: "RelevantRule \<Rightarrow> (string \<times> pyval) list" where
  "fallback_violation rule =
     [(''rule_id'', PStr (rule_id rule)),
      (''violation_description'', PStr (''Potential violation of: '' @ title rule)),
      (''severity'', PStr (severity rule)),
      (''suggested_fix'', PStr (description rule)),
      (''confidence_score'', PFloat (similarity rule)),
      (''line_number'', PNone),
      (''column_number'', PNone)]"

definition rule_based_violations :: "RelevantRule list \<Rightarrow> pyval" where
  "rule_based_violations rules = PList (map (\<lambda>rule. PDict (fallback_violation rule)) rules)"

text \<open>
  The inner \<^verbatim>\<open>try\<close> block of \<^verbatim>\<open>process_file\<close>: the model call, the parsing of its response
  and \<^verbatim>\<open>len(violations)\<close>, which raises when the parsed value has no length.
\<close>

definition llm_analysis :: "'a collaborators \<Rightarrow> RAGContext \<Rightarrow> py_error + pyval" where
  "llm_analysis env rag_context =
     (case ainvoke env (analysis_prompt rag_context) of
        Inl msg \<Rightarrow> Inl (OtherError msg)
      | Inr llm_response_text \<Rightarrow>
          (let vs = parse_llm_response (loads env) llm_response_text in
           case py_len vs of
             Inl e \<Rightarrow> Inl e
           | Inr n \<Rightarrow> Inr vs))"

definition failed_result :: "string \<Rightarrow> string \<Rightarrow> real \<Rightarrow> string \<Rightarrow> WorkerResult" where
  "failed_result wid path elapsed msg =
     \<lparr>worker_id = wid, result_file_path = path, success = False, result_violations = PList [],
      processing_time = elapsed,
      error_message = Some (''Worker processing failed: '' @ msg)\<rparr>"

text \<open>\<^verbatim>\<open>process_file\<close>; \<open>elapsed\<close> is the time read from the clock.\<close>

definition process_file :: "'a collaborators \<Rightarrow> string \<Rightarrow> string \<Rightarrow> real \<Rightarrow> WorkerResult" where
  "process_file env wid path elapsed =
     (case parse_file env path of
        Inl msg \<Rightarrow> failed_result wid path elapsed msg
      | Inr code_analysis \<Rightarrow>
          (case generate_analysis_context env code_analysis of
             Inl msg \<Rightarrow> failed_result wid path elapsed msg
           | Inr rag_context \<Rightarrow>
               (let vs = (case llm_analysis env rag_context of
                            Inl llm_error \<Rightarrow> rule_based_violations (relevant_rules rag_context)
                          | Inr vs \<Rightarrow> vs)
                in \<lparr>worker_id = wid, result_file_path = path, success = True, result_violations = vs,
                    processing_time = elapsed, error_message = None\<rparr>)))"

section \<open>The master orchestrator (src/agents/master\_orchestrator.py)\<close>

text \<open>The session without its two timestamps.\<close>

record AnalysisSession =
  session_id :: string
  session_name :: string
  source_type :: string
  source_path :: string
  status :: string
  total_files :: int
  processed_files :: int
  failed_files :: int
  worker_results :: "WorkerResult list"

definition create_session :: "string \<Rightarrow> string \<Rightarrow> string \<Rightarrow> string \<Rightarrow> int \<Rightarrow> AnalysisSession" where
  "create_session sid name stype spath n_files =
     \<lparr>session_id = sid, session_name = name, source_type = stype, source_path = spath,
      status = ''in_progress'', total_files = n_files, processed_files = 0, failed_files = 0,
      worker_results = []\<rparr>"

text \<open>What \<^verbatim>\<open>asyncio.gather(*tasks, return_exceptions=True)\<close> holds for one task.\<close>

datatype task_outcome = TaskException string | TaskResult WorkerResult

text \<open>The loop over \<^verbatim>\<open>batch_results\<close>: the state is the session and \<^verbatim>\<open>all_results\<close>.\<close>

fun count_batch_results ::
  "task_outcome list \<Rightarrow> AnalysisSession \<times> WorkerResult list \<Rightarrow> AnalysisSession \<times> WorkerResult list" where
  "count_batch_results [] st = st"
| "count_batch_results (TaskException e # rs) (session, all_results) =
     count_batch_results rs (session\<lparr>failed_files := failed_files session + 1\<rparr>, all_results)"
| "count_batch_results (TaskResult r # rs) (session, all_results) =
     count_batch_results rs
       (if success r then session\<lparr>processed_files := processed_files session + 1\<rparr>
        else session\<lparr>failed_files := failed_files session + 1\<rparr>,
        all_results @ [r])"

text \<open>
  The tasks of one batch: the file at position \<open>j\<close> of the batch goes to worker
  \<open>j mod len(workers)\<close>. \<open>run k w path\<close> is the outcome of the task for the file at position
  \<open>k\<close> of the whole list, processed by worker \<open>w\<close>. With no worker the modulus raises.
\<close>

definition run_batch ::
  "nat \<Rightarrow> (nat \<Rightarrow> nat \<Rightarrow> string \<Rightarrow> task_outcome) \<Rightarrow> nat \<Rightarrow> string list \<Rightarrow> py_error + task_outcome list" where
  "run_batch n_workers run i batch_files =
     (if batch_files \<noteq> [] \<and> n_workers = 0 then Inl ZeroDivisionError
      else Inr (map (\<lambda>(j, path). run (i + j) (j mod n_workers) path) (enumerate 0 batch_files)))"

text \<open>\<^verbatim>\<open>range(0, n, step)\<close> for \<open>n \<ge> 0\<close>.\<close>

definition batch_starts :: "nat \<Rightarrow> nat \<Rightarrow> nat list" where
  "batch_starts n step = map (\<lambda>k. k * step) [0..<(n + step - 1) div step]"

definition py_range :: "nat \<Rightarrow> int \<Rightarrow> py_error + nat list" where
  "py_range n step =
     (if step = 0 then Inl ValueError
      else if step < 0 then Inr []
      else Inr (batch_starts n (nat step)))"

text \<open>
  The loop \<^verbatim>\<open>for i in range(0, len(file_paths), batch_size)\<close> of \<^verbatim>\<open>_process_files\<close> over the
  batch starts still to come. An exception leaves the loop with the session as it is then.
\<close>

fun process_batches ::
  "nat \<Rightarrow> (nat \<Rightarrow> nat \<Rightarrow> string \<Rightarrow> task_outcome) \<Rightarrow> nat \<Rightarrow> string list \<Rightarrow> nat list \<Rightarrow>
   AnalysisSession \<times> WorkerResult list \<Rightarrow> py_error option \<times> AnalysisSession \<times> WorkerResult list" where
  "process_batches n_workers run batch_size file_paths [] st = (None, st)"
| "process_batches n_workers run batch_size file_paths (i # starts) st =
     (case run_batch n_workers run i (take batch_size (drop i file_paths)) of
        Inl e \<Rightarrow> (Some e, st)
      | Inr batch_results \<Rightarrow>
          process_batches n_workers run batch_size file_paths starts
            (count_batch_results batch_results st))"

text \<open>
  The summary after the loop adds up \<^verbatim>\<open>len(result.violations)\<close> over the successful
  results; it raises when one of them holds a value without a length.
\<close>

definition summary_raises :: "WorkerResult list \<Rightarrow> bool" where
  "summary_raises all_results =
     list_ex (\<lambda>r. success r \<and> (case py_len (result_violations r) of Inl e \<Rightarrow> True | Inr n \<Rightarrow> False))
       all_results"

text \<open>
  \<^verbatim>\<open>_process_files\<close>. \<open>setup_failure\<close> is the message of the exception that the creation of
  the file records or the initialisation of a worker raises before the loop, if any. The
  \<^verbatim>\<open>except\<close> clause sets the status \<^verbatim>\<open>failed\<close> and raises again. The result is the session
  as the function leaves it and the exception that leaves the function, if any.
\<close>

definition process_files ::
  "string option \<Rightarrow> nat \<Rightarrow> int \<Rightarrow> (nat \<Rightarrow> nat \<Rightarrow> string \<Rightarrow> task_outcome) \<Rightarrow>
   AnalysisSession \<Rightarrow> string list \<Rightarrow> AnalysisSession \<times> py_error option" where
  "process_files setup_failure max_workers batch_size run session file_paths =
     (case setup_failure of
        Some msg \<Rightarrow> (session\<lparr>status := ''failed''\<rparr>, Some (OtherError msg))
      | None \<Rightarrow>
          (case py_range (length file_paths) batch_size of
             Inl e \<Rightarrow> (session\<lparr>status := ''failed''\<rparr>, Some e)
           | Inr starts \<Rightarrow>
               (case process_batches max_workers run (nat batch_size) file_paths starts (session, []) of
                  (Some e, session', all_results) \<Rightarrow> (session'\<lparr>status := ''failed''\<rparr>, Some e)
                | (None, session', all_results) \<Rightarrow>
                    (if summary_raises all_results
                     then (session'\<lparr>worker_results := all_results, status := ''failed''\<rparr>,
                           Some TypeError)
                     else (session'\<lparr>worker_results := all_results, status := ''completed''\<rparr>,
                           None)))))"

text \<open>
  The common part of \<^verbatim>\<open>analyze_folder\<close> and \<^verbatim>\<open>analyze_git_repo\<close> once the files are found:
  an empty list raises before any session exists; otherwise the session is created with
  \<^verbatim>\<open>total_files = len(python_files)\<close> and the files are processed.
\<close>

definition analyze_files ::
  "string \<Rightarrow> string \<Rightarrow> string \<Rightarrow> string \<Rightarrow> string option \<Rightarrow> nat \<Rightarrow> int \<Rightarrow>
   (nat \<Rightarrow> nat \<Rightarrow> string \<Rightarrow> task_outcome) \<Rightarrow> string list \<Rightarrow>
   py_error + AnalysisSession \<times> py_error option" where
  "analyze_files sid name stype spath setup_failure max_workers batch_size run python_files =
     (if python_files = [] then Inl ValueError
      else Inr (process_files setup_failure max_workers batch_size run
                  (create_session sid name stype spath (int (length python_files))) python_files))"

text \<open>The number of files dispatched in the first \<open>k\<close> batches.\<close>

definition dispatched :: "nat \<Rightarrow> string list \<Rightarrow> nat \<Rightarrow> nat" where
  "dispatched batch_size file_paths k =
     sum_list (map (\<lambda>i. length (take batch_size (drop i file_paths)))
                   (take k (batch_starts (length file_paths) batch_size)))"

section \<open>Rendering a unified diff (\<^verbatim>\<open>_generate_unified_diff\<close> of src/diff/diff\_generator.py)\<close>

text \<open>
  \<^verbatim>\<open>str.splitlines(keepends=True)\<close>: a line ends after a line feed, a carriage return, a
  carriage return with its line feed or one of the other ASCII line boundaries, and keeps
  its line ending.
\<close>

definition is_linebreak :: "char \<Rightarrow> bool" where
  "is_linebreak c = (c \<in> set [CHR 0x0A, CHR 0x0B, CHR 0x0C, CHR 0x0D, CHR 0x1C, CHR 0x1D, CHR 0x1E])"

fun splitlines_keepends :: "string \<Rightarrow> string list" where
  "splitlines_keepends [] = []"
| "splitlines_keepends (c # cs) =
     (if c = CHR 0x0D then
        (case cs of
           [] \<Rightarrow> [[c]]
         | d # ds \<Rightarrow> if d = CHR 0x0A then [c, d] # splitlines_keepends ds
                     else [c] # splitlines_keepends cs)
      else if is_linebreak c then [c] # splitlines_keepends cs
      else (case splitlines_keepends cs of
              [] \<Rightarrow> [[c]]
            | l # ls \<Rightarrow> (c # l) # ls))"

text \<open>\<^verbatim>\<open>str(n)\<close> for a natural number.\<close>

function str_nat :: "nat \<Rightarrow> string" where
  "str_nat n = (if n < 10 then [char_of (48 + n)] else str_nat (n div 10) @ [char_of (48 + n mod 10)])"
  by pat_completeness auto
termination
  by (relation "measure id") auto

text \<open>
  The part of Python's \<^verbatim>\<open>difflib.unified_diff\<close> that formats the output. The grouped
  opcodes \<^verbatim>\<open>SequenceMatcher(None, a, b).get_grouped_opcodes(3)\<close> are a parameter: an opcode
  is a tag with the ranges \<^verbatim>\<open>a[i1:i2]\<close> and \<^verbatim>\<open>b[j1:j2]\<close>, and equal inputs have no group.
\<close>

datatype opcode_tag = Equal | Replace | Delete | Insert

type_synonym opcode = "opcode_tag \<times> nat \<times> nat \<times> nat \<times> nat"

definition format_range_unified :: "nat \<Rightarrow> nat \<Rightarrow> string" where
  "format_range_unified start stop =
     (let beginning = start + 1;
          len = stop - start
      in if len = 1 then str_nat beginning
         else str_nat (if len = 0 then beginning - 1 else beginning) @ '','' @ str_nat len)"

fun format_opcode :: "string list \<Rightarrow> string list \<Rightarrow> opcode \<Rightarrow> string list" where
  "format_opcode a b (tag, i1, i2, j1, j2) =
     (if tag = Equal then map (\<lambda>line. CHR '' '' # line) (take (i2 - i1) (drop i1 a))
      else (if tag = Replace \<or> tag = Delete
            then map (\<lambda>line. CHR ''-'' # line) (take (i2 - i1) (drop i1 a)) else []) @
           (if tag = Replace \<or> tag = Insert
            then map (\<lambda>line. CHR ''+'' # line) (take (j2 - j1) (drop j1 b)) else []))"

definition format_group :: "string list \<Rightarrow> string list \<Rightarrow> string \<Rightarrow> opcode list \<Rightarrow> string list" where
  "format_group a b lineterm grp =
     (case grp of
        [] \<Rightarrow> []
      | first # rest \<Rightarrow>
          (case (first, last grp) of
             ((tag1, i1, i2, j1, j2), (tag2, k1, k2, l1, l2)) \<Rightarrow>
               (''@@ -'' @ format_range_unified i1 k2 @ '' +'' @ format_range_unified j1 l2 @
                '' @@'' @ lineterm)
               # concat (map (format_opcode a b) grp)))"

definition unified_diff ::
  "opcode list list \<Rightarrow> string list \<Rightarrow> string list \<Rightarrow> string \<Rightarrow> string \<Rightarrow> string \<Rightarrow> string list" where
  "unified_diff groups a b fromfile tofile lineterm =
     (if groups = [] then []
      else [''--- '' @ fromfile @ lineterm, ''+++ '' @ tofile @ lineterm] @
           concat (map (format_group a b lineterm) groups))"

text \<open>\<^verbatim>\<open>_generate_unified_diff\<close>: the lines keep their endings, \<^verbatim>\<open>lineterm\<close> is empty and
  the pieces are joined without a separator.\<close>

definition generate_unified_diff :: "opcode list list \<Rightarrow> string \<Rightarrow> string \<Rightarrow> string \<Rightarrow> string" where
  "generate_unified_diff groups path original_content modified_content =
     (let original_lines = splitlines_keepends original_content;
          modified_lines = splitlines_keepends modified_content
      in concat (unified_diff groups original_lines modified_lines
                   (''a/'' @ path) (''b/'' @ path) []))"

section \<open>Manual patch application (src/git/git\_manager.py)\<close>

text \<open>A hunk dictionary with its keys \<^verbatim>\<open>type\<close>, \<^verbatim>\<open>old_range\<close>, \<^verbatim>\<open>new_range\<close> and \<^verbatim>\<open>lines\<close>.\<close>

record hunk =
  hunk_type :: string
  old_range :: string
  new_range :: string
  hunk_lines :: "string list"

text \<open>\<^verbatim>\<open>d[k] = v\<close> on a dictionary kept in insertion order.\<close>

fun dict_set :: "('k \<times> 'v) list \<Rightarrow> 'k \<Rightarrow> 'v \<Rightarrow> ('k \<times> 'v) list" where
  "dict_set [] k v = [(k, v)]"
| "dict_set ((k', v') # d) k v = (if k' = k then (k', v) # d else (k', v') # dict_set d k v)"

text \<open>\<^verbatim>\<open>s.split(sep)\<close> for a non-empty separator string; \<open>skip\<close> counts the characters of a
  separator still to pass over.\<close>

fun split_str_from :: "string \<Rightarrow> nat \<Rightarrow> string \<Rightarrow> string list" where
  "split_str_from sep skip [] = [[]]"
| "split_str_from sep (Suc skip) (c # cs) = split_str_from sep skip cs"
| "split_str_from sep 0 (c # cs) =
     (if startswith (c # cs) sep then [] # split_str_from sep (length sep - 1) cs
      else (case split_str_from sep 0 cs of
              [] \<Rightarrow> [[c]]
            | w # ws \<Rightarrow> (c # w) # ws))"

definition split_str :: "string \<Rightarrow> string \<Rightarrow> string list" where
  "split_str sep s = split_str_from sep 0 s"

text \<open>\<^verbatim>\<open>s.split()\<close>: the words between runs of whitespace.\<close>

fun split_whitespace :: "string \<Rightarrow> string list" where
  "split_whitespace [] = []"
| "split_whitespace (c # cs) =
     (if is_space c then split_whitespace cs
      else (case cs of
              [] \<Rightarrow> [[c]]
            | d # ds \<Rightarrow>
                if is_space d then [c] # split_whitespace cs
                else (case split_whitespace cs of
                        [] \<Rightarrow> [[c]]
                      | w # ws \<Rightarrow> (c # w) # ws)))"

text \<open>The state of the loop of \<^verbatim>\<open>_parse_diff_content\<close>; \<^verbatim>\<open>current_file\<close> starts as
  \<^verbatim>\<open>None\<close>.\<close>

record parse_state =
  changes :: "(string \<times> hunk list) list"
  current_file :: "string option"
  current_changes :: "hunk list"

text \<open>\<^verbatim>\<open>if current_file and current_changes: changes[current_file] = current_changes\<close>.\<close>

definition save_changes :: "parse_state \<Rightarrow> (string \<times> hunk list) list" where
  "save_changes st =
     (case current_file st of
        None \<Rightarrow> changes st
      | Some f \<Rightarrow> if f \<noteq> [] \<and> current_changes st \<noteq> []
                  then dict_set (changes st) f (current_changes st)
                  else changes st)"

text \<open>
  One round of the loop. In the \<^verbatim>\<open>@@\<close> branch the line starts with \<^verbatim>\<open>@@\<close>, so
  \<^verbatim>\<open>line.split('@@')\<close> has at least two parts and index 1 is in range.
\<close>

definition parse_diff_line :: "parse_state \<Rightarrow> string \<Rightarrow> parse_state" where
  "parse_diff_line st line =
     (if startswith line ''--- '' then
        (let saved = (case current_file st of
                        None \<Rightarrow> False
                      | Some f \<Rightarrow> f \<noteq> [] \<and> current_changes st \<noteq> []);
             f = strip (drop 4 line)
         in \<lparr>changes = save_changes st,
             current_file = Some (if startswith f ''a/'' then drop 2 f else f),
             current_changes = (if saved then [] else current_changes st)\<rparr>)
      else if startswith line ''+++ '' then
        (let f = strip (drop 4 line)
         in if startswith f ''b/'' then st\<lparr>current_file := Some (drop 2 f)\<rparr> else st)
      else if startswith line ''@@'' then
        (let hunk_info = strip (split_str ''@@'' line ! 1);
             parts = split_whitespace hunk_info
         in if length parts \<ge> 2 then
              st\<lparr>current_changes := current_changes st @
                   [\<lparr>hunk_type = ''hunk'', old_range = drop 1 (parts ! 0),
                     new_range = drop 1 (parts ! 1), hunk_lines = []\<rparr>]\<rparr>
            else st)
      else if current_changes st \<noteq> [] \<and>
              (startswith line ''+'' \<or> startswith line ''-'' \<or> startswith line '' '') then
        st\<lparr>current_changes := butlast (current_changes st) @
             [(last (current_changes st))\<lparr>hunk_lines := hunk_lines (last (current_changes st)) @ [line]\<rparr>]\<rparr>
      else st)"

definition parse_diff_content :: "string \<Rightarrow> (string \<times> hunk list) list" where
  "parse_diff_content diff_content =
     save_changes (foldl parse_diff_line
       \<lparr>changes = [], current_file = None, current_changes = []\<rparr>
       (split_char newline diff_content))"

text \<open>The first loop of \<^verbatim>\<open>_apply_hunk\<close>: context lines, additions and deletions, each
  without its first character.\<close>

fun classify_hunk_lines :: "string list \<Rightarrow> string list \<times> string list \<times> string list" where
  "classify_hunk_lines [] = ([], [], [])"
| "classify_hunk_lines (line # rest) =
     (case classify_hunk_lines rest of
        (context_lines, additions, deletions) \<Rightarrow>
          if startswith line '' '' then (drop 1 line # context_lines, additions, deletions)
          else if startswith line ''+'' then (context_lines, drop 1 line # additions, deletions)
          else if startswith line ''-'' then (context_lines, additions, drop 1 line # deletions)
          else (context_lines, additions, deletions))"

text \<open>The second loop of \<^verbatim>\<open>_apply_hunk\<close>: every line whose stripped text equals a stripped
  deletion is left out, and the additions go where the first of them was.\<close>

fun replace_deleted :: "string list \<Rightarrow> string list \<Rightarrow> string list \<Rightarrow> string list" where
  "replace_deleted [] deletions additions = []"
| "replace_deleted (line # lines) deletions additions =
     (if list_ex (\<lambda>del_line. strip line = strip del_line) deletions
      then additions @ replace_deleted lines deletions []
      else line # replace_deleted lines deletions additions)"

definition apply_hunk :: "string list \<Rightarrow> hunk \<Rightarrow> string list" where
  "apply_hunk lines h =
     (case classify_hunk_lines (hunk_lines h) of
        (context_lines, additions, deletions) \<Rightarrow> replace_deleted lines deletions additions)"

text \<open>
  The working tree as \<^verbatim>\<open>_apply_file_changes\<close> sees it: a path has no file, a file that
  cannot be read, a file that cannot be written, or a file that can be both. The text of a
  file is what Python reads in text mode; \<^verbatim>\<open>readlines\<close> cuts it after each newline.
\<close>

datatype file_entry = Unreadable | ReadOnly string | Writable string

fun readlines :: "string \<Rightarrow> string list" where
  "readlines [] = []"
| "readlines (c # cs) =
     (if c = newline then [c] # readlines cs
      else (case readlines cs of
              [] \<Rightarrow> [[c]]
            | l # ls \<Rightarrow> (c # l) # ls))"

text \<open>The loop over the changes of one file.\<close>

fun apply_hunks :: "string list \<Rightarrow> hunk list \<Rightarrow> string list" where
  "apply_hunks lines [] = lines"
| "apply_hunks lines (change # rest) =
     apply_hunks (if hunk_type change = ''hunk'' then apply_hunk lines change else lines) rest"

text \<open>
  \<^verbatim>\<open>_apply_file_changes\<close>: the result and the working tree afterwards. A missing file
  returns \<^verbatim>\<open>False\<close>; an exception while reading or writing is caught and returns \<^verbatim>\<open>False\<close>.
\<close>

definition apply_file_changes ::
  "(string \<rightharpoonup> file_entry) \<Rightarrow> string \<Rightarrow> hunk list \<Rightarrow> bool \<times> (string \<rightharpoonup> file_entry)" where
  "apply_file_changes tree path file_changes =
     (case tree path of
        None \<Rightarrow> (False, tree)
      | Some Unreadable \<Rightarrow> (False, tree)
      | Some (ReadOnly text) \<Rightarrow> (False, tree)
      | Some (Writable text) \<Rightarrow>
          (True, tree(path \<mapsto> Writable (concat (apply_hunks (readlines text) file_changes)))))"

section \<open>Properties of the diff generator\<close>

lemma py_sort_reverse_sorted:
  "sorted_wrt (\<lambda>a b. key a \<ge> key b) (py_sort_reverse key xs)"
proof -
  have "sorted (map key (sort_key key (rev xs)))" by simp
  then have "sorted_wrt (\<lambda>a b. key a \<le> key b) (sort_key key (rev xs))"
    by (simp add: sorted_map)
  then show ?thesis
    unfolding py_sort_reverse_def by (simp add: sorted_wrt_rev)
qed

lemma py_sort_reverse_stable:
  "filter (\<lambda>y. key y = k) (py_sort_reverse key xs) = filter (\<lambda>y. key y = k) xs"
proof -
  have "filter (\<lambda>y. key y = k) (py_sort_reverse key xs)
        = rev (filter (\<lambda>y. key y = k) (sort_key key (rev xs)))"
    unfolding py_sort_reverse_def by (simp add: rev_filter)
  also have "\<dots> = rev (filter (\<lambda>y. key y = k) (rev xs))"
    by (simp only: sort_key_stable)
  also have "\<dots> = filter (\<lambda>y. key y = k) xs"
    by (simp add: rev_filter)
  finally show ?thesis .
qed

lemma py_sort_reverse_set: "set (py_sort_reverse key xs) = set xs"
  unfolding py_sort_reverse_def by simp

lemma py_sort_reverse_length: "length (py_sort_reverse key xs) = length xs"
  unfolding py_sort_reverse_def by simp

lemma apply_fixes_loop_length: "length (apply_fixes_loop lines fxs) = length lines"
  by (induction fxs arbitrary: lines) auto

lemma apply_fixes_loop_nth:
  "i < length lines \<Longrightarrow>
   apply_fixes_loop lines fxs ! i =
     (case filter (\<lambda>f. line_number f = int i + 1) fxs of
        [] \<Rightarrow> lines ! i
      | f # fs \<Rightarrow> rstrip (fixed_code (last (f # fs))))"
proof (induction fxs arbitrary: lines)
  case Nil
  then show ?case by simp
next
  case (Cons cf fxs)
  define lines' where "lines' = (if 1 \<le> line_number cf \<and> line_number cf \<le> int (length lines)
        then lines[nat (line_number cf - 1) := rstrip (fixed_code cf)] else lines)"
  have len: "i < length lines'" using Cons.prems by (simp add: lines'_def)
  have step: "apply_fixes_loop lines (cf # fxs) = apply_fixes_loop lines' fxs"
    by (simp add: lines'_def)
  note IH = Cons.IH[OF len]
  show ?case
  proof (cases "line_number cf = int i + 1")
    case True
    then have l': "lines' ! i = rstrip (fixed_code cf)"
      using Cons.prems by (simp add: lines'_def)
    show ?thesis
      unfolding step IH using True l'
      by (simp split: list.splits)
  next
    case False
    then have l': "lines' ! i = lines ! i"
      using Cons.prems by (auto simp: lines'_def nth_list_update)
    show ?thesis
      unfolding step IH using False l'
      by (simp split: list.splits)
  qed
qed

lemma split_char_not_Nil: "split_char c s \<noteq> []"
  by (induction s) (auto split: list.splits)

lemma split_char_no_sep: "l \<in> set (split_char c s) \<Longrightarrow> c \<notin> set l"
  by (induction s arbitrary: l) (auto split: list.splits if_splits)

lemma split_char_free: "c \<notin> set l \<Longrightarrow> split_char c l = [l]"
  by (induction l) auto

lemma split_char_append:
  "c \<notin> set l \<Longrightarrow> split_char c (l @ c # s) = l # split_char c s"
  by (induction l) (auto split: list.splits)

lemma join_Cons_Cons: "join sep ((a # x) # xs) = a # join sep (x # xs)"
  by (cases xs) auto

lemma split_char_join:
  "ls \<noteq> [] \<Longrightarrow> \<forall>l\<in>set ls. c \<notin> set l \<Longrightarrow> split_char c (join [c] ls) = ls"
proof (induction ls)
  case Nil
  then show ?case by simp
next
  case (Cons x xs)
  show ?case
  proof (cases xs)
    case Nil
    then show ?thesis using Cons.prems by (simp add: split_char_free)
  next
    case (Cons y ys)
    then have "split_char c (join [c] xs) = xs" using Cons.IH Cons.prems by simp
    moreover have "join [c] (x # xs) = x @ c # join [c] xs" using Cons by simp
    ultimately show ?thesis using Cons.prems by (simp add: split_char_append)
  qed
qed

lemma join_split_char: "join [c] (split_char c s) = s"
  by (induction s) (auto split: list.splits simp: split_char_not_Nil join_Cons_Cons)

lemma collect_fixes_append:
  "collect_fixes fx (xs @ ys) lines path = collect_fixes fx xs lines path @ collect_fixes fx ys lines path"
  by (induction xs) (auto split: option.splits)

lemma collect_fixes_mem:
  "v \<in> set vs \<Longrightarrow> create_fix_from_violation fx v lines path = Some cf \<Longrightarrow>
   cf \<in> set (collect_fixes fx vs lines path)"
  by (induction vs) (auto split: option.splits)

lemma check_line_number_range:
  "check_line_number v len = Inr (Some n) \<Longrightarrow> 1 \<le> n \<and> n \<le> int len"
  by (auto simp: check_line_number_def Let_def split: pyval.splits if_splits)

lemma create_fix_in_range:
  assumes "create_fix_from_violation fx v lines path = Some cf"
  shows "1 \<le> line_number cf \<and> line_number cf \<le> int (length lines)"
proof -
  from assms obtain d n where v: "v = PDict d"
    and n: "check_line_number (dict_get d ''line_number'' PNone) (length lines) = Inr (Some n)"
    and ln: "line_number cf = n"
    by (auto simp: create_fix_from_violation_def create_fix_body_def Let_def
             split: pyval.splits sum.splits option.splits if_splits)
  from check_line_number_range[OF n] ln show ?thesis by simp
qed

lemma collect_fixes_in_range:
  "cf \<in> set (collect_fixes fx vs lines path) \<Longrightarrow>
   1 \<le> line_number cf \<and> line_number cf \<le> int (length lines)"
  by (induction vs) (auto split: option.splits dest: create_fix_in_range)

lemma apply_fixes_loop_set:
  "l \<in> set (apply_fixes_loop lines fxs) \<Longrightarrow>
   l \<in> set lines \<or> (\<exists>f\<in>set fxs. l = rstrip (fixed_code f))"
proof (induction fxs arbitrary: lines)
  case Nil
  then show ?case by simp
next
  case (Cons cf fxs)
  define lines' where "lines' = (if 1 \<le> line_number cf \<and> line_number cf \<le> int (length lines)
        then lines[nat (line_number cf - 1) := rstrip (fixed_code cf)] else lines)"
  have step: "apply_fixes_loop lines (cf # fxs) = apply_fixes_loop lines' fxs"
    by (simp add: lines'_def)
  have sub: "set lines' \<subseteq> insert (rstrip (fixed_code cf)) (set lines)"
    using set_update_subset_insert[of lines "nat (line_number cf - 1)" "rstrip (fixed_code cf)"]
    by (simp add: lines'_def subset_insertI)
  from Cons.prems step have "l \<in> set (apply_fixes_loop lines' fxs)" by simp
  from Cons.IH[OF this] sub show ?case by auto
qed

text \<open>
  Claim C8. For every violation list and file content, the list of fixes that
  \<^verbatim>\<open>_parse_violations_to_fixes\<close> returns is sorted by non-increasing line number.
\<close>

theorem fixes_sorted_descending:
  "sorted_wrt (\<lambda>a b. line_number a \<ge> line_number b)
     (parse_violations_to_fixes fx path violations file_content)"
  unfolding parse_violations_to_fixes_def Let_def by (rule py_sort_reverse_sorted)

text \<open>C8 at three violations given in the order of lines 1, 3, 2.\<close>

theorem fixes_sorted_descending_witness:
  "sorted_wrt (\<lambda>a b. line_number a \<ge> line_number b)
     (parse_violations_to_fixes
        \<lparr>fix_indentation = Inr, fix_spacing = Inr, fix_imports = Inr, fix_line_length = Inr,
         fix_naming_convention = Inr \<circ> fst\<rparr>
        ''t.py''
        [PDict [(''line_number'', PInt 1), (''suggested_fix'', PStr ''A'')],
         PDict [(''line_number'', PInt 3), (''suggested_fix'', PStr ''C'')],
         PDict [(''line_number'', PInt 2), (''suggested_fix'', PStr ''B'')]]
        ''a\<newline>b\<newline>c'')"
  by (rule fixes_sorted_descending)

text \<open>
  Claim C9. A violation whose line number is null (absent or \<^verbatim>\<open>None\<close>), below 1 (so also 0)
  or above the number of lines yields no fix: the \<^verbatim>\<open>try\<close> body returns \<^verbatim>\<open>None\<close> at the
  guard without raising, \<^verbatim>\<open>_create_fix_from_violation\<close> returns \<^verbatim>\<open>None\<close>, and the loop of
  \<^verbatim>\<open>_parse_violations_to_fixes\<close> collects the same fixes as without that violation.
\<close>

theorem out_of_range_violation_dropped:
  assumes "dict_get d ''line_number'' PNone = PNone \<or>
           (\<exists>n. dict_get d ''line_number'' PNone = PInt n \<and> (n < 1 \<or> int (length lines) < n))"
  shows "create_fix_body fx (PDict d) lines path = Inr None \<and>
         create_fix_from_violation fx (PDict d) lines path = None \<and>
         collect_fixes fx (before @ PDict d # after) lines path =
           collect_fixes fx (before @ after) lines path"
proof -
  have chk: "check_line_number (dict_get d ''line_number'' PNone) (length lines) = Inr None"
    using assms by (auto simp: check_line_number_def)
  have body: "create_fix_body fx (PDict d) lines path = Inr None"
    by (simp add: create_fix_body_def chk)
  then have none: "create_fix_from_violation fx (PDict d) lines path = None"
    by (simp add: create_fix_from_violation_def)
  have "collect_fixes fx (PDict d # after) lines path = collect_fixes fx after lines path"
    by (simp add: none)
  then show ?thesis using body none by (simp add: collect_fixes_append)
qed

text \<open>C9 at a violation with line number 0 in a file of two lines.\<close>

theorem out_of_range_violation_dropped_witness:
  "create_fix_body
     \<lparr>fix_indentation = Inr, fix_spacing = Inr, fix_imports = Inr, fix_line_length = Inr,
      fix_naming_convention = Inr \<circ> fst\<rparr>
     (PDict [(''line_number'', PInt 0), (''suggested_fix'', PStr ''x = 1'')]) [''a'', ''b''] ''t.py''
     = Inr None \<and>
   create_fix_from_violation
     \<lparr>fix_indentation = Inr, fix_spacing = Inr, fix_imports = Inr, fix_line_length = Inr,
      fix_naming_convention = Inr \<circ> fst\<rparr>
     (PDict [(''line_number'', PInt 0), (''suggested_fix'', PStr ''x = 1'')]) [''a'', ''b''] ''t.py''
     = None \<and>
   collect_fixes
     \<lparr>fix_indentation = Inr, fix_spacing = Inr, fix_imports = Inr, fix_line_length = Inr,
      fix_naming_convention = Inr \<circ> fst\<rparr>
     ([PDict [(''line_number'', PInt 2), (''suggested_fix'', PStr ''B'')]] @
      PDict [(''line_number'', PInt 0), (''suggested_fix'', PStr ''x = 1'')] # [])
     [''a'', ''b''] ''t.py''
     = collect_fixes
     \<lparr>fix_indentation = Inr, fix_spacing = Inr, fix_imports = Inr, fix_line_length = Inr,
      fix_naming_convention = Inr \<circ> fst\<rparr>
     ([PDict [(''line_number'', PInt 2), (''suggested_fix'', PStr ''B'')]] @ [])
     [''a'', ''b''] ''t.py''"
proof -
  have h: "dict_get [(''line_number'', PInt 0), (''suggested_fix'', PStr ''x = 1'')] ''line_number'' PNone = PNone \<or>
           (\<exists>n. dict_get [(''line_number'', PInt 0), (''suggested_fix'', PStr ''x = 1'')] ''line_number'' PNone = PInt n \<and>
                (n < 1 \<or> int (length [''a'', ''b'']) < n))"
    by (simp add: dict_get_def)
  show ?thesis by (rule out_of_range_violation_dropped[OF h])
qed

text \<open>
  Claim C10, as amended. \<^verbatim>\<open>_apply_fixes\<close> keeps the length of the list of lines; entry \<open>i\<close>
  is unchanged when no fix targets line \<open>i + 1\<close>, and otherwise holds the replacement of
  the last fix of the list that targets it, right-stripped of all trailing whitespace; the
  joined text splits back into the same lines, so it has as many lines as the original,
  when no stripped replacement contains a newline.
\<close>

theorem apply_fixes_overwrites_in_place:
  "length (apply_fixes_loop (split_char newline content) fxs) = length (split_char newline content) \<and>
   (\<forall>i<length (split_char newline content).
      apply_fixes_loop (split_char newline content) fxs ! i =
        (case filter (\<lambda>f. line_number f = int i + 1) fxs of
           [] \<Rightarrow> split_char newline content ! i
         | f # fs \<Rightarrow> rstrip (fixed_code (last (f # fs))))) \<and>
   ((\<forall>f\<in>set fxs. newline \<notin> set (rstrip (fixed_code f))) \<longrightarrow>
      split_char newline (apply_fixes content fxs) = apply_fixes_loop (split_char newline content) fxs)"
proof (intro conjI allI impI)
  show "length (apply_fixes_loop (split_char newline content) fxs) = length (split_char newline content)"
    by (rule apply_fixes_loop_length)
next
  fix i assume "i < length (split_char newline content)"
  then show "apply_fixes_loop (split_char newline content) fxs ! i =
        (case filter (\<lambda>f. line_number f = int i + 1) fxs of
           [] \<Rightarrow> split_char newline content ! i
         | f # fs \<Rightarrow> rstrip (fixed_code (last (f # fs))))"
    by (rule apply_fixes_loop_nth)
next
  assume clean: "\<forall>f\<in>set fxs. newline \<notin> set (rstrip (fixed_code f))"
  let ?edited = "apply_fixes_loop (split_char newline content) fxs"
  have ne: "?edited \<noteq> []"
    using apply_fixes_loop_length[of "split_char newline content" fxs]
      split_char_not_Nil[of newline content] by (metis length_0_conv)
  have "\<forall>l\<in>set ?edited. newline \<notin> set l"
  proof
    fix l assume "l \<in> set ?edited"
    from apply_fixes_loop_set[OF this] show "newline \<notin> set l"
      using clean split_char_no_sep by blast
  qed
  from split_char_join[OF ne this] show "split_char newline (apply_fixes content fxs) = ?edited"
    by (simp add: apply_fixes_def)
qed

text \<open>C10 (amended) at a file of three lines and fixes for lines 3 and 1.\<close>

theorem apply_fixes_overwrites_in_place_witness:
  "length (apply_fixes_loop (split_char newline ''a\<newline>b\<newline>c'')
      [\<lparr>file_path = ''t.py'', line_number = 3, column_number = PNone, original_code = ''c'',
        fixed_code = ''C  '', violation_description = PStr [], fix_rule_id = PStr ''R1'',
        confidence_score = PFloat 0\<rparr>,
       \<lparr>file_path = ''t.py'', line_number = 1, column_number = PNone, original_code = ''a'',
        fixed_code = ''A\<newline>'', violation_description = PStr [], fix_rule_id = PStr ''R2'',
        confidence_score = PFloat 0\<rparr>])
     = length (split_char newline ''a\<newline>b\<newline>c'') \<and>
   split_char newline (apply_fixes ''a\<newline>b\<newline>c''
      [\<lparr>file_path = ''t.py'', line_number = 3, column_number = PNone, original_code = ''c'',
        fixed_code = ''C  '', violation_description = PStr [], fix_rule_id = PStr ''R1'',
        confidence_score = PFloat 0\<rparr>,
       \<lparr>file_path = ''t.py'', line_number = 1, column_number = PNone, original_code = ''a'',
        fixed_code = ''A\<newline>'', violation_description = PStr [], fix_rule_id = PStr ''R2'',
        confidence_score = PFloat 0\<rparr>])
     = [''A'', ''b'', ''C'']"
proof -
  let ?fxs = "[\<lparr>file_path = ''t.py'', line_number = 3, column_number = PNone, original_code = ''c'',
        fixed_code = ''C  '', violation_description = PStr [], fix_rule_id = PStr ''R1'',
        confidence_score = PFloat 0\<rparr>,
       \<lparr>file_path = ''t.py'', line_number = 1, column_number = PNone, original_code = ''a'',
        fixed_code = ''A\<newline>'', violation_description = PStr [], fix_rule_id = PStr ''R2'',
        confidence_score = PFloat 0\<rparr>]"
  note t = apply_fixes_overwrites_in_place[of "''a\<newline>b\<newline>c''" ?fxs]
  have clean: "\<forall>f\<in>set ?fxs. newline \<notin> set (rstrip (fixed_code f))"
    by code_simp
  have ev: "apply_fixes_loop (split_char newline ''a\<newline>b\<newline>c'') ?fxs = [''A'', ''b'', ''C'']"
    by code_simp
  from t have a: "length (apply_fixes_loop (split_char newline ''a\<newline>b\<newline>c'') ?fxs)
     = length (split_char newline ''a\<newline>b\<newline>c'')" by (rule conjunct1)
  from t clean have "split_char newline (apply_fixes ''a\<newline>b\<newline>c'' ?fxs)
     = apply_fixes_loop (split_char newline ''a\<newline>b\<newline>c'') ?fxs" by blast
  with a ev show ?thesis by simp
qed

text \<open>
  C10 as stated fails: a replacement with an embedded newline and trailing blanks turns a
  one-line text into a two-line text, and the line written is not the replacement trimmed
  of line terminators only.
\<close>

theorem apply_fixes_line_count_counterexample:
  "length (split_char newline (apply_fixes ''a''
      [\<lparr>file_path = ''t.py'', line_number = 1, column_number = PNone, original_code = ''a'',
        fixed_code = ''b\<newline>c  '', violation_description = PStr [], fix_rule_id = PStr ''R1'',
        confidence_score = PFloat 0\<rparr>])) = 2 \<and>
   length (split_char newline ''a'') = 1 \<and>
   apply_fixes ''a''
      [\<lparr>file_path = ''t.py'', line_number = 1, column_number = PNone, original_code = ''a'',
        fixed_code = ''b\<newline>c  '', violation_description = PStr [], fix_rule_id = PStr ''R1'',
        confidence_score = PFloat 0\<rparr>] = ''b\<newline>c'' \<and>
   rtrim_line_terminators ''b\<newline>c  '' = ''b\<newline>c  ''"
  by code_simp

text \<open>
  Claim C4, as amended. The fixes for one line number appear in the output of
  \<^verbatim>\<open>_parse_violations_to_fixes\<close> in the order in which their violations were given (the
  sort is stable), and after \<^verbatim>\<open>_apply_fixes\<close> the line holds the stripped replacement of the
  last of them in the sorted list, which is the last one applied.
\<close>

theorem same_line_fixes_last_survives:
  assumes "filter (\<lambda>f. line_number f = n) (parse_violations_to_fixes fx path violations content) \<noteq> []"
  shows "filter (\<lambda>f. line_number f = n) (parse_violations_to_fixes fx path violations content) =
           filter (\<lambda>f. line_number f = n) (collect_fixes fx violations (split_char newline content) path) \<and>
         apply_fixes_loop (split_char newline content)
             (parse_violations_to_fixes fx path violations content) ! nat (n - 1) =
           rstrip (fixed_code (last (filter (\<lambda>f. line_number f = n)
             (parse_violations_to_fixes fx path violations content))))"
proof -
  let ?lines = "split_char newline content"
  let ?fixes = "parse_violations_to_fixes fx path violations content"
  let ?same = "filter (\<lambda>f. line_number f = n) ?fixes"
  have stable: "?same = filter (\<lambda>f. line_number f = n) (collect_fixes fx violations ?lines path)"
    unfolding parse_violations_to_fixes_def Let_def by (rule py_sort_reverse_stable)
  from assms obtain cf where cf: "cf \<in> set ?same" by (cases ?same) auto
  then have "cf \<in> set (collect_fixes fx violations ?lines path)" and ln: "line_number cf = n"
    using stable by auto
  from collect_fixes_in_range[OF this(1)] ln have range: "1 \<le> n" "n \<le> int (length ?lines)"
    by auto
  then have i: "nat (n - 1) < length ?lines" and n: "int (nat (n - 1)) + 1 = n" by auto
  from assms obtain f fs where same: "?same = f # fs" by (cases ?same) auto
  have "apply_fixes_loop ?lines ?fixes ! nat (n - 1) = rstrip (fixed_code (last ?same))"
    using apply_fixes_loop_nth[OF i, of ?fixes] unfolding n same by simp
  with stable show ?thesis by simp
qed

text \<open>C4 (amended) at two violations for line 1 around one for line 2.\<close>

theorem same_line_fixes_last_survives_witness:
  "filter (\<lambda>f. line_number f = 1)
     (parse_violations_to_fixes
        \<lparr>fix_indentation = Inr, fix_spacing = Inr, fix_imports = Inr, fix_line_length = Inr,
         fix_naming_convention = Inr \<circ> fst\<rparr>
        ''t.py''
        [PDict [(''line_number'', PInt 1), (''suggested_fix'', PStr ''X'')],
         PDict [(''line_number'', PInt 2), (''suggested_fix'', PStr ''Z'')],
         PDict [(''line_number'', PInt 1), (''suggested_fix'', PStr ''Y'')]]
        ''a\<newline>b'') =
   filter (\<lambda>f. line_number f = 1)
     (collect_fixes
        \<lparr>fix_indentation = Inr, fix_spacing = Inr, fix_imports = Inr, fix_line_length = Inr,
         fix_naming_convention = Inr \<circ> fst\<rparr>
        [PDict [(''line_number'', PInt 1), (''suggested_fix'', PStr ''X'')],
         PDict [(''line_number'', PInt 2), (''suggested_fix'', PStr ''Z'')],
         PDict [(''line_number'', PInt 1), (''suggested_fix'', PStr ''Y'')]]
        (split_char newline ''a\<newline>b'') ''t.py'') \<and>
   apply_fixes_loop (split_char newline ''a\<newline>b'')
     (parse_violations_to_fixes
        \<lparr>fix_indentation = Inr, fix_spacing = Inr, fix_imports = Inr, fix_line_length = Inr,
         fix_naming_convention = Inr \<circ> fst\<rparr>
        ''t.py''
        [PDict [(''line_number'', PInt 1), (''suggested_fix'', PStr ''X'')],
         PDict [(''line_number'', PInt 2), (''suggested_fix'', PStr ''Z'')],
         PDict [(''line_number'', PInt 1), (''suggested_fix'', PStr ''Y'')]]
        ''a\<newline>b'') ! nat (1 - 1) =
   rstrip (fixed_code (last (filter (\<lambda>f. line_number f = 1)
     (parse_violations_to_fixes
        \<lparr>fix_indentation = Inr, fix_spacing = Inr, fix_imports = Inr, fix_line_length = Inr,
         fix_naming_convention = Inr \<circ> fst\<rparr>
        ''t.py''
        [PDict [(''line_number'', PInt 1), (''suggested_fix'', PStr ''X'')],
         PDict [(''line_number'', PInt 2), (''suggested_fix'', PStr ''Z'')],
         PDict [(''line_number'', PInt 1), (''suggested_fix'', PStr ''Y'')]]
        ''a\<newline>b''))))"
proof -
  have h: "filter (\<lambda>f. line_number f = 1)
     (parse_violations_to_fixes
        \<lparr>fix_indentation = Inr, fix_spacing = Inr, fix_imports = Inr, fix_line_length = Inr,
         fix_naming_convention = Inr \<circ> fst\<rparr>
        ''t.py''
        [PDict [(''line_number'', PInt 1), (''suggested_fix'', PStr ''X'')],
         PDict [(''line_number'', PInt 2), (''suggested_fix'', PStr ''Z'')],
         PDict [(''line_number'', PInt 1), (''suggested_fix'', PStr ''Y'')]]
        ''a\<newline>b'') \<noteq> []"
    by code_simp
  show ?thesis by (rule same_line_fixes_last_survives[OF h])
qed

text \<open>
  C4 as stated fails: with fixes \<^verbatim>\<open>X\<close> then \<^verbatim>\<open>Y\<close> for line 1, the sorted list is
  \<^verbatim>\<open>[X, Y]\<close> and the text after application is \<^verbatim>\<open>Y\<close>, the last of the same-line fixes
  and not the first.
\<close>

theorem same_line_first_fix_survives_counterexample:
  "map line_number
     (parse_violations_to_fixes
        \<lparr>fix_indentation = Inr, fix_spacing = Inr, fix_imports = Inr, fix_line_length = Inr,
         fix_naming_convention = Inr \<circ> fst\<rparr>
        ''t.py''
        [PDict [(''line_number'', PInt 1), (''suggested_fix'', PStr ''X'')],
         PDict [(''line_number'', PInt 1), (''suggested_fix'', PStr ''Y'')]]
        ''a'') = [1, 1] \<and>
   map fixed_code
     (parse_violations_to_fixes
        \<lparr>fix_indentation = Inr, fix_spacing = Inr, fix_imports = Inr, fix_line_length = Inr,
         fix_naming_convention = Inr \<circ> fst\<rparr>
        ''t.py''
        [PDict [(''line_number'', PInt 1), (''suggested_fix'', PStr ''X'')],
         PDict [(''line_number'', PInt 1), (''suggested_fix'', PStr ''Y'')]]
        ''a'') = [''X'', ''Y''] \<and>
   apply_fixes ''a''
     (parse_violations_to_fixes
        \<lparr>fix_indentation = Inr, fix_spacing = Inr, fix_imports = Inr, fix_line_length = Inr,
         fix_naming_convention = Inr \<circ> fst\<rparr>
        ''t.py''
        [PDict [(''line_number'', PInt 1), (''suggested_fix'', PStr ''X'')],
         PDict [(''line_number'', PInt 1), (''suggested_fix'', PStr ''Y'')]]
        ''a'') = ''Y''"
  by code_simp

text \<open>
  Claim C5, as amended. Take a violation with an in-range integer line number, an empty
  stripped suggested fix and a description holding none of the keywords \<^verbatim>\<open>indentation\<close>,
  \<^verbatim>\<open>space\<close>, \<^verbatim>\<open>import\<close>, \<^verbatim>\<open>line too long\<close>, \<^verbatim>\<open>naming\<close>, \<^verbatim>\<open>convention\<close>. When its stripped
  problematic code is not empty, the replacement is the original line right-stripped plus
  a newline; it differs from the original line, and the fix is kept in the output of
  \<^verbatim>\<open>_parse_violations_to_fixes\<close>. When the problematic code is empty too, no fix is made.
\<close>

theorem default_auto_fix_strips_line:
  assumes ln: "dict_get d ''line_number'' PNone = PInt n"
    and lo: "1 \<le> n" and hi: "n \<le> int (length (split_char newline content))"
    and sf: "py_strip (dict_get d ''suggested_fix'' (PStr [])) = Inr []"
    and pc: "dict_get d ''problematic_code'' (PStr []) = PStr pc"
    and desc: "dict_get d ''violation_description'' (PStr []) = PStr desc"
    and kw: "\<not> contains ''indentation'' (lower desc)" "\<not> contains ''space'' (lower desc)"
            "\<not> contains ''import'' (lower desc)" "\<not> contains ''line too long'' (lower desc)"
            "\<not> contains ''naming'' (lower desc)" "\<not> contains ''convention'' (lower desc)"
    and mem: "PDict d \<in> set violations"
  shows "(strip pc \<noteq> [] \<longrightarrow>
          (\<exists>cf. create_fix_from_violation fx (PDict d) (split_char newline content) path = Some cf \<and>
              line_number cf = n \<and>
              original_code cf = split_char newline content ! nat (n - 1) \<and>
              fixed_code cf = rstrip (original_code cf) @ [newline] \<and>
              fixed_code cf \<noteq> original_code cf \<and>
              cf \<in> set (parse_violations_to_fixes fx path violations content))) \<and>
         (strip pc = [] \<longrightarrow>
          create_fix_from_violation fx (PDict d) (split_char newline content) path = None)"
proof (intro conjI impI)
  let ?lines = "split_char newline content"
  let ?orig = "?lines ! nat (n - 1)"
  have chk: "check_line_number (dict_get d ''line_number'' PNone) (length ?lines) = Inr (Some n)"
    using ln lo hi by (simp add: check_line_number_def)
  {
    assume pcne: "strip pc \<noteq> []"
    have auto_fix: "generate_auto_fix fx ?orig (strip pc) (PStr desc) = rstrip ?orig @ [newline]"
      using kw by (simp add: generate_auto_fix_def Let_def)
    have sfo: "suggested_fix_of fx d ?orig = Inr (rstrip ?orig @ [newline])"
      using sf pc pcne desc auto_fix by (simp add: suggested_fix_of_def py_strip_def)
    define cf where "cf = \<lparr>file_path = path, line_number = n,
       column_number = dict_get d ''column_number'' PNone,
       original_code = ?orig, fixed_code = rstrip ?orig @ [newline],
       violation_description = dict_get d ''violation_description'' (PStr []),
       fix_rule_id = dict_get d ''rule_id'' (PStr ''unknown''),
       confidence_score = dict_get d ''confidence_score'' (PFloat 0)\<rparr>"
    have created: "create_fix_from_violation fx (PDict d) ?lines path = Some cf"
      by (simp add: create_fix_from_violation_def create_fix_body_def chk sfo cf_def Let_def)
    have "nat (n - 1) < length ?lines" using lo hi by auto
    then have "?orig \<in> set ?lines" by simp
    then have "newline \<notin> set ?orig" by (rule split_char_no_sep)
    then have differ: "rstrip ?orig @ [newline] \<noteq> ?orig"
      by (metis in_set_conv_decomp)
    have "cf \<in> set (collect_fixes fx violations ?lines path)"
      using mem created by (rule collect_fixes_mem)
    then have "cf \<in> set (parse_violations_to_fixes fx path violations content)"
      by (simp add: parse_violations_to_fixes_def Let_def py_sort_reverse_set)
    with created differ
    show "\<exists>cf. create_fix_from_violation fx (PDict d) ?lines path = Some cf \<and>
              line_number cf = n \<and>
              original_code cf = ?lines ! nat (n - 1) \<and>
              fixed_code cf = rstrip (original_code cf) @ [newline] \<and>
              fixed_code cf \<noteq> original_code cf \<and>
              cf \<in> set (parse_violations_to_fixes fx path violations content)"
      by (auto simp: cf_def)
  }
  {
    assume pce: "strip pc = []"
    have "suggested_fix_of fx d ?orig = Inr []"
      using sf pc pce by (simp add: suggested_fix_of_def py_strip_def)
    then show "create_fix_from_violation fx (PDict d) ?lines path = None"
      by (simp add: create_fix_from_violation_def create_fix_body_def chk Let_def)
  }
qed

text \<open>C5 (amended) at the line \<^verbatim>\<open>x = 1\<close> followed by two blanks.\<close>

theorem default_auto_fix_strips_line_witness:
  "\<exists>cf. create_fix_from_violation
           \<lparr>fix_indentation = Inr, fix_spacing = Inr, fix_imports = Inr, fix_line_length = Inr,
            fix_naming_convention = Inr \<circ> fst\<rparr>
           (PDict [(''line_number'', PInt 1), (''problematic_code'', PStr ''x''),
                   (''violation_description'', PStr ''Bad style'')])
           (split_char newline ''x = 1  '') ''t.py'' = Some cf \<and>
         line_number cf = 1 \<and>
         original_code cf = split_char newline ''x = 1  '' ! nat (1 - 1) \<and>
         fixed_code cf = rstrip (original_code cf) @ [newline] \<and>
         fixed_code cf \<noteq> original_code cf \<and>
         cf \<in> set (parse_violations_to_fixes
           \<lparr>fix_indentation = Inr, fix_spacing = Inr, fix_imports = Inr, fix_line_length = Inr,
            fix_naming_convention = Inr \<circ> fst\<rparr>
           ''t.py''
           [PDict [(''line_number'', PInt 1), (''problematic_code'', PStr ''x''),
                   (''violation_description'', PStr ''Bad style'')]]
           ''x = 1  '')"
proof -
  let ?d = "[(''line_number'', PInt 1), (''problematic_code'', PStr ''x''),
             (''violation_description'', PStr ''Bad style'')]"
  have ln: "dict_get ?d ''line_number'' PNone = PInt 1" by (simp add: dict_get_def)
  have lo: "(1::int) \<le> 1" by simp
  have hi: "1 \<le> int (length (split_char newline ''x = 1  ''))" by code_simp
  have sf: "py_strip (dict_get ?d ''suggested_fix'' (PStr [])) = Inr []" by code_simp
  have pc: "dict_get ?d ''problematic_code'' (PStr []) = PStr ''x''" by (simp add: dict_get_def)
  have pcne: "strip ''x'' \<noteq> []" by code_simp
  have desc: "dict_get ?d ''violation_description'' (PStr []) = PStr ''Bad style''"
    by (simp add: dict_get_def)
  have kw: "\<not> contains ''indentation'' (lower ''Bad style'')"
           "\<not> contains ''space'' (lower ''Bad style'')"
           "\<not> contains ''import'' (lower ''Bad style'')"
           "\<not> contains ''line too long'' (lower ''Bad style'')"
           "\<not> contains ''naming'' (lower ''Bad style'')"
           "\<not> contains ''convention'' (lower ''Bad style'')"
    by code_simp+
  have mem: "PDict ?d \<in> set [PDict ?d]" by simp
  from default_auto_fix_strips_line[OF ln lo hi sf pc desc kw mem] pcne
  show ?thesis by (rule mp[OF conjunct1])
qed

text \<open>
  C5 as stated fails: the default replacement for the line \<^verbatim>\<open>x = 1\<close> ends in a newline,
  so it is not the original line, and the fix is in the output; a replacement that is
  byte-identical to the original line (the description is null, so the automatic fix
  returns the line as it is) is in the output as well.
\<close>

theorem default_auto_fix_unchanged_and_filtered_counterexample:
  "map fixed_code
     (parse_violations_to_fixes
        \<lparr>fix_indentation = Inr, fix_spacing = Inr, fix_imports = Inr, fix_line_length = Inr,
         fix_naming_convention = Inr \<circ> fst\<rparr>
        ''t.py''
        [PDict [(''line_number'', PInt 1), (''problematic_code'', PStr ''x''),
                (''violation_description'', PStr ''Bad style'')]]
        ''x = 1'') = [''x = 1\<newline>''] \<and>
   map original_code
     (parse_violations_to_fixes
        \<lparr>fix_indentation = Inr, fix_spacing = Inr, fix_imports = Inr, fix_line_length = Inr,
         fix_naming_convention = Inr \<circ> fst\<rparr>
        ''t.py''
        [PDict [(''line_number'', PInt 1), (''problematic_code'', PStr ''x''),
                (''violation_description'', PStr ''Bad style'')]]
        ''x = 1'') = [''x = 1''] \<and>
   map fixed_code
     (parse_violations_to_fixes
        \<lparr>fix_indentation = Inr, fix_spacing = Inr, fix_imports = Inr, fix_line_length = Inr,
         fix_naming_convention = Inr \<circ> fst\<rparr>
        ''t.py''
        [PDict [(''line_number'', PInt 1), (''problematic_code'', PStr ''x''),
                (''violation_description'', PNone)]]
        ''x = 1'') = [''x = 1'']"
  by code_simp

section \<open>Properties of the worker agent\<close>

lemma manual_extract_loop_bullets:
  "(case manual_extract_loop lines vs cur of
      (vs', cur') \<Rightarrow> (if cur' \<noteq> [] then vs' @ [PDict cur'] else vs')) =
   (if cur \<noteq> [] then vs @ [PDict cur] else vs) @
   map (\<lambda>l. PDict (manual_violation l))
     (filter (\<lambda>l. startswith l ''- '' \<or> startswith l ''* '') (map strip lines))"
proof (induction lines arbitrary: vs cur)
  case Nil
  then show ?case by simp
next
  case (Cons line lines)
  have ne: "manual_violation (strip line) \<noteq> []" by (simp add: manual_violation_def)
  show ?case
  proof (cases "startswith (strip line) ''- '' \<or> startswith (strip line) ''* ''")
    case True
    then show ?thesis
      using Cons.IH[of "if cur \<noteq> [] then vs @ [PDict cur] else vs" "manual_violation (strip line)"] ne
      by (simp add: Let_def)
  next
    case False
    then show ?thesis using Cons.IH[of vs cur] by (simp add: Let_def)
  qed
qed

lemma manual_extract_bullets:
  "manual_extract response =
     map (\<lambda>l. PDict (manual_violation l))
       (filter (\<lambda>l. startswith l ''- '' \<or> startswith l ''* '')
          (map strip (split_char newline response)))"
  unfolding manual_extract_def
  using manual_extract_loop_bullets[of "split_char newline response" "[]" "[]"] by simp

lemma parse_llm_response_no_brace:
  "CHR ''{'' \<notin> set response \<Longrightarrow>
   parse_llm_response json_loads response = PList (manual_extract response)"
  by (simp add: parse_llm_response_def find_char_def Let_def)

lemma parse_llm_response_no_key:
  "json_loads (slice response (find_char CHR ''{'' response) (rfind_char CHR ''}'' response + 1)) = Inr parsed \<Longrightarrow>
   map_of parsed ''violations'' = None \<Longrightarrow>
   parse_llm_response json_loads response = PList (manual_extract response)"
  by (simp add: parse_llm_response_def Let_def)

lemma process_file_fallback:
  assumes "parse_file env path = Inr code_analysis"
    and "generate_analysis_context env code_analysis = Inr rag_context"
    and "ainvoke env (analysis_prompt rag_context) = Inl msg"
  shows "process_file env wid path elapsed =
      \<lparr>worker_id = wid, result_file_path = path, success = True,
       result_violations = rule_based_violations (relevant_rules rag_context),
       processing_time = elapsed, error_message = None\<rparr>"
proof -
  have "llm_analysis env rag_context = Inl (OtherError msg)"
    using assms(3) by (simp add: llm_analysis_def)
  then show ?thesis using assms(1,2) by (simp add: process_file_def)
qed

text \<open>
  Claim C6 at the response \<^verbatim>\<open>- Line too long {see PEP8}\<close>. The text between the first
  opening and the last closing brace is \<^verbatim>\<open>{see PEP8}\<close>; when \<^verbatim>\<open>json.loads\<close> raises on it,
  \<^verbatim>\<open>_parse_llm_response\<close> returns the empty list, although the line-oriented extraction
  finds one bullet line in the response and would give one record with rule id
  \<^verbatim>\<open>manual_extract\<close>, severity \<^verbatim>\<open>medium\<close> and confidence 0.7.
\<close>

theorem parse_llm_response_json_error_skips_bullets:
  assumes "json_loads ''{see PEP8}'' = Inl JSONDecodeError"
  shows "parse_llm_response json_loads ''- Line too long {see PEP8}'' = PList [] \<and>
         manual_extract ''- Line too long {see PEP8}'' =
           [PDict [(''rule_id'', PStr ''manual_extract''),
                   (''violation_description'', PStr ''Line too long {see PEP8}''),
                   (''severity'', PStr ''medium''),
                   (''confidence_score'', PFloat 0.7)]]"
proof -
  have s: "slice ''- Line too long {see PEP8}''
             (find_char CHR ''{'' ''- Line too long {see PEP8}'')
             (rfind_char CHR ''}'' ''- Line too long {see PEP8}'' + 1) = ''{see PEP8}''"
    by code_simp
  have c: "find_char CHR ''{'' ''- Line too long {see PEP8}'' \<ge> 0 \<and>
           rfind_char CHR ''}'' ''- Line too long {see PEP8}'' + 1 >
             find_char CHR ''{'' ''- Line too long {see PEP8}''"
    by code_simp
  have a: "parse_llm_response json_loads ''- Line too long {see PEP8}'' = PList []"
    unfolding parse_llm_response_def Let_def using c by (simp only: s assms if_True sum.case simp_thms)
  have b: "manual_extract ''- Line too long {see PEP8}'' =
           [PDict [(''rule_id'', PStr ''manual_extract''),
                   (''violation_description'', PStr ''Line too long {see PEP8}''),
                   (''severity'', PStr ''medium''),
                   (''confidence_score'', PFloat 0.7)]]"
    by code_simp
  from a b show ?thesis by simp
qed

text \<open>The same with a \<^verbatim>\<open>json.loads\<close> that rejects every text.\<close>

theorem parse_llm_response_json_error_skips_bullets_witness:
  "parse_llm_response (\<lambda>s. Inl JSONDecodeError) ''- Line too long {see PEP8}'' = PList [] \<and>
   manual_extract ''- Line too long {see PEP8}'' =
           [PDict [(''rule_id'', PStr ''manual_extract''),
                   (''violation_description'', PStr ''Line too long {see PEP8}''),
                   (''severity'', PStr ''medium''),
                   (''confidence_score'', PFloat 0.7)]]"
  by (rule parse_llm_response_json_error_skips_bullets) simp

text \<open>
  Claim C7. When parsing and retrieval succeed and the model call raises, \<^verbatim>\<open>process_file\<close>
  returns a successful result with no error message whose violations are exactly one
  record for each retrieved rule, in order; each record holds the rule's id, the rule's
  similarity as confidence and the description \<^verbatim>\<open>Potential violation of: <title>\<close>. Any
  other run whose model call fails on the same retrieved rules returns the same list.
\<close>

theorem model_failure_falls_back_to_rules:
  assumes "parse_file env path = Inr code_analysis"
    and "generate_analysis_context env code_analysis = Inr rag_context"
    and "ainvoke env (analysis_prompt rag_context) = Inl msg"
  shows "success (process_file env wid path elapsed) \<and>
         error_message (process_file env wid path elapsed) = None \<and>
         result_violations (process_file env wid path elapsed) =
           PList (map (\<lambda>rule. PDict (fallback_violation rule)) (relevant_rules rag_context)) \<and>
         py_len (result_violations (process_file env wid path elapsed)) =
           Inr (length (relevant_rules rag_context)) \<and>
         (\<forall>rule \<in> set (relevant_rules rag_context).
            dict_get (fallback_violation rule) ''rule_id'' PNone = PStr (rule_id rule) \<and>
            dict_get (fallback_violation rule) ''confidence_score'' PNone = PFloat (similarity rule) \<and>
            dict_get (fallback_violation rule) ''violation_description'' PNone =
              PStr (''Potential violation of: '' @ title rule)) \<and>
         (parse_file env' path' = Inr code_analysis' \<and>
          generate_analysis_context env' code_analysis' = Inr rag_context' \<and>
          ainvoke env' (analysis_prompt rag_context') = Inl msg' \<and>
          relevant_rules rag_context' = relevant_rules rag_context \<longrightarrow>
            result_violations (process_file env' wid' path' elapsed') =
              result_violations (process_file env wid path elapsed))"
proof -
  have r: "process_file env wid path elapsed =
      \<lparr>worker_id = wid, result_file_path = path, success = True,
       result_violations = rule_based_violations (relevant_rules rag_context),
       processing_time = elapsed, error_message = None\<rparr>"
    using assms by (rule process_file_fallback)
  have d: "result_violations (process_file env' wid' path' elapsed') =
           result_violations (process_file env wid path elapsed)"
    if "parse_file env' path' = Inr code_analysis' \<and>
        generate_analysis_context env' code_analysis' = Inr rag_context' \<and>
        ainvoke env' (analysis_prompt rag_context') = Inl msg' \<and>
        relevant_rules rag_context' = relevant_rules rag_context"
  proof -
    from that have "process_file env' wid' path' elapsed' =
      \<lparr>worker_id = wid', result_file_path = path', success = True,
       result_violations = rule_based_violations (relevant_rules rag_context'),
       processing_time = elapsed', error_message = None\<rparr>"
      using process_file_fallback[of env' path' code_analysis' rag_context' msg' wid' elapsed']
      by blast
    with that r show ?thesis by simp
  qed
  from r have "success (process_file env wid path elapsed) \<and>
         error_message (process_file env wid path elapsed) = None \<and>
         result_violations (process_file env wid path elapsed) =
           PList (map (\<lambda>rule. PDict (fallback_violation rule)) (relevant_rules rag_context)) \<and>
         py_len (result_violations (process_file env wid path elapsed)) =
           Inr (length (relevant_rules rag_context)) \<and>
         (\<forall>rule \<in> set (relevant_rules rag_context).
            dict_get (fallback_violation rule) ''rule_id'' PNone = PStr (rule_id rule) \<and>
            dict_get (fallback_violation rule) ''confidence_score'' PNone = PFloat (similarity rule) \<and>
            dict_get (fallback_violation rule) ''violation_description'' PNone =
              PStr (''Potential violation of: '' @ title rule))"
    by (simp add: rule_based_violations_def py_len_def fallback_violation_def dict_get_def)
  with d show ?thesis by blast
qed

text \<open>C7 at two retrieved rules and a model call that times out.\<close>

theorem model_failure_falls_back_to_rules_witness:
  "result_violations
     (process_file
        \<lparr>parse_file = Inr,
         generate_analysis_context = (\<lambda>a. Inr
           \<lparr>relevant_rules =
              [\<lparr>rule_id = ''PEP8-E501'', title = ''Line length'', description = ''Limit lines'',
                category = ''style'', severity = ''low'', similarity = 0.8, rule_context = None\<rparr>,
               \<lparr>rule_id = ''PEP8-N806'', title = ''Naming'', description = ''Use snake case'',
                category = ''naming'', severity = ''medium'', similarity = 0.6, rule_context = None\<rparr>],
            analysis_prompt = ''Analyse''\<rparr>),
         ainvoke = (\<lambda>p. Inl ''timeout''),
         loads = (\<lambda>s. Inl JSONDecodeError)\<rparr>
        ''worker_01'' ''a.py'' 1) =
   PList (map (\<lambda>rule. PDict (fallback_violation rule))
     [\<lparr>rule_id = ''PEP8-E501'', title = ''Line length'', description = ''Limit lines'',
       category = ''style'', severity = ''low'', similarity = 0.8, rule_context = None\<rparr>,
      \<lparr>rule_id = ''PEP8-N806'', title = ''Naming'', description = ''Use snake case'',
       category = ''naming'', severity = ''medium'', similarity = 0.6, rule_context = None\<rparr>])"
proof -
  let ?rag = "\<lparr>relevant_rules =
              [\<lparr>rule_id = ''PEP8-E501'', title = ''Line length'', description = ''Limit lines'',
                category = ''style'', severity = ''low'', similarity = 0.8, rule_context = None\<rparr>,
               \<lparr>rule_id = ''PEP8-N806'', title = ''Naming'', description = ''Use snake case'',
                category = ''naming'', severity = ''medium'', similarity = 0.6, rule_context = None\<rparr>],
            analysis_prompt = ''Analyse''\<rparr>"
  let ?env = "\<lparr>parse_file = Inr, generate_analysis_context = (\<lambda>a. Inr ?rag),
         ainvoke = (\<lambda>p. Inl ''timeout''), loads = (\<lambda>s. Inl JSONDecodeError)\<rparr>
         :: string collaborators"
  have h1: "parse_file ?env ''a.py'' = Inr ''a.py''" by simp
  have h2: "generate_analysis_context ?env ''a.py'' = Inr ?rag" by simp
  have h3: "ainvoke ?env (analysis_prompt ?rag) = Inl ''timeout''" by simp
  have "result_violations (process_file ?env ''worker_01'' ''a.py'' 1) =
        PList (map (\<lambda>rule. PDict (fallback_violation rule)) (relevant_rules ?rag))"
    by (rule conjunct1[OF conjunct2[OF conjunct2[OF model_failure_falls_back_to_rules[OF h1 h2 h3]]]])
  then show ?thesis by simp
qed

section \<open>Properties of the master orchestrator\<close>

lemma count_batch_results_counters:
  "count_batch_results rs (s, acc) = (s', acc') \<Longrightarrow>
   processed_files s' + failed_files s' = processed_files s + failed_files s + int (length rs) \<and>
   total_files s' = total_files s \<and> status s' = status s"
proof (induction rs arbitrary: s acc)
  case Nil
  then show ?case by simp
next
  case (Cons r rs)
  show ?case
  proof (cases r)
    case (TaskException e)
    with Cons.prems have "count_batch_results rs
        (s\<lparr>failed_files := failed_files s + 1\<rparr>, acc) = (s', acc')" by simp
    from Cons.IH[OF this] show ?thesis by simp
  next
    case (TaskResult w)
    show ?thesis
    proof (cases "success w")
      case True
      with TaskResult Cons.prems have "count_batch_results rs
          (s\<lparr>processed_files := processed_files s + 1\<rparr>, acc @ [w]) = (s', acc')" by simp
      from Cons.IH[OF this] show ?thesis by simp
    next
      case False
      with TaskResult Cons.prems have "count_batch_results rs
          (s\<lparr>failed_files := failed_files s + 1\<rparr>, acc @ [w]) = (s', acc')" by simp
      from Cons.IH[OF this] show ?thesis by simp
    qed
  qed
qed

lemma run_batch_workers:
  "0 < n_workers \<Longrightarrow> \<exists>rs. run_batch n_workers run i batch = Inr rs \<and> length rs = length batch"
  by (simp add: run_batch_def)

lemma process_batches_counters:
  assumes "0 < n_workers"
  shows "\<exists>s' acc'. process_batches n_workers run b fps starts (s, acc) = (None, s', acc') \<and>
     processed_files s' + failed_files s' =
       processed_files s + failed_files s +
       int (sum_list (map (\<lambda>i. length (take b (drop i fps))) starts)) \<and>
     total_files s' = total_files s \<and> status s' = status s"
proof (induction starts arbitrary: s acc)
  case Nil
  then show ?case by simp
next
  case (Cons i starts)
  from run_batch_workers[OF assms, of run i "take b (drop i fps)"]
  obtain rs where rs: "run_batch n_workers run i (take b (drop i fps)) = Inr rs"
    and len: "length rs = length (take b (drop i fps))" by blast
  obtain s1 acc1 where c: "count_batch_results rs (s, acc) = (s1, acc1)"
    by (cases "count_batch_results rs (s, acc)")
  from count_batch_results_counters[OF c]
  have c1: "processed_files s1 + failed_files s1 = processed_files s + failed_files s + int (length rs)"
    and c2: "total_files s1 = total_files s" and c3: "status s1 = status s" by auto
  from Cons.IH[of s1 acc1] obtain s' acc' where
    p: "process_batches n_workers run b fps starts (s1, acc1) = (None, s', acc')"
    and q: "processed_files s' + failed_files s' =
       processed_files s1 + failed_files s1 +
       int (sum_list (map (\<lambda>i. length (take b (drop i fps))) starts))"
    and r: "total_files s' = total_files s1" "status s' = status s1" by blast
  have "process_batches n_workers run b fps (i # starts) (s, acc) = (None, s', acc')"
    using rs c p by simp
  moreover have "processed_files s' + failed_files s' =
       processed_files s + failed_files s +
       int (sum_list (map (\<lambda>i. length (take b (drop i fps))) (i # starts)))"
    using q c1 len by simp
  ultimately show ?case using r c2 c3 by simp
qed

lemma process_batches_failure:
  "process_batches n_workers run b fps starts (s, acc) = (Some e, s', acc') \<Longrightarrow>
   n_workers = 0 \<and> s' = s"
proof (induction starts arbitrary: s acc)
  case Nil
  then show ?case by simp
next
  case (Cons i starts)
  show ?case
  proof (cases "n_workers = 0")
    case True
    show ?thesis
    proof (cases "run_batch n_workers run i (take b (drop i fps))")
      case (Inl e')
      with Cons.prems show ?thesis using True by simp
    next
      case (Inr rs)
      then have "rs = []" using True by (auto simp: run_batch_def split: if_splits)
      with Inr Cons.prems have "process_batches n_workers run b fps starts (s, acc) = (Some e, s', acc')"
        by simp
      from Cons.IH[OF this] show ?thesis .
    qed
  next
    case False
    then have "0 < n_workers" by simp
    from process_batches_counters[OF this, of run b fps "i # starts" s acc] Cons.prems
    show ?thesis by simp
  qed
qed

lemma sum_batch_lengths:
  assumes "0 < b"
  shows "k \<le> (n + b - 1) div b \<Longrightarrow>
   sum_list (map (\<lambda>i. min b (n - i)) (map (\<lambda>j. j * b) [0..<k])) = min (k * b) n"
proof (induction k)
  case 0
  then show ?case by simp
next
  case (Suc k)
  then have "k < (n + b - 1) div b" by simp
  then have "\<not> (n + b - 1) div b < Suc k" by simp
  then have "\<not> n + b - 1 < Suc k * b"
    using assms by (simp add: div_less_iff_less_mult)
  then have kb: "k * b < n" using assms by simp
  have ih: "sum_list (map (\<lambda>i. min b (n - i)) (map (\<lambda>j. j * b) [0..<k])) = min (k * b) n"
    using Suc by simp
  have "sum_list (map (\<lambda>i. min b (n - i)) (map (\<lambda>j. j * b) [0..<Suc k])) =
        min (k * b) n + min b (n - k * b)"
    using ih by simp
  also have "\<dots> = min (Suc k * b) n"
    using \<open>k * b < n\<close> by (auto simp: min_def)
  finally show ?case .
qed

lemma dispatched_eq:
  assumes "0 < b" and "k \<le> length (batch_starts (length fps) b)"
  shows "dispatched b fps k = min (k * b) (length fps)"
proof -
  have k: "k \<le> (length fps + b - 1) div b" using assms(2) by (simp add: batch_starts_def)
  have "take k (batch_starts (length fps) b) = map (\<lambda>j. j * b) [0..<k]"
    using k by (simp add: batch_starts_def take_map)
  then have "dispatched b fps k =
      sum_list (map (\<lambda>i. min b (length fps - i)) (map (\<lambda>j. j * b) [0..<k]))"
    by (simp add: dispatched_def comp_def min.commute)
  with sum_batch_lengths[OF assms(1) k] show ?thesis by simp
qed

lemma dispatched_all:
  assumes "0 < b"
  shows "dispatched b fps (length (batch_starts (length fps) b)) = length fps"
proof -
  let ?n = "length fps" and ?k = "length (batch_starts (length fps) b)"
  have k: "?k = (?n + b - 1) div b" by (simp add: batch_starts_def)
  have "(?n + b - 1) div b < Suc ?k" using k by simp
  then have "?n + b - 1 < Suc ?k * b" using assms by (simp only: div_less_iff_less_mult)
  then have "?n \<le> ?k * b" using assms by simp
  with dispatched_eq[OF assms order_refl, of fps] show ?thesis by simp
qed

lemma run_batch_length:
  "run_batch n_workers run i batch = Inr rs \<Longrightarrow> length rs = length batch"
  by (auto simp: run_batch_def split: if_splits)

lemma process_batches_completed:
  "process_batches n_workers run b fps starts (s, acc) = (None, s', acc') \<Longrightarrow>
   processed_files s' + failed_files s' =
     processed_files s + failed_files s +
     int (sum_list (map (\<lambda>i. length (take b (drop i fps))) starts)) \<and>
   total_files s' = total_files s"
proof (induction starts arbitrary: s acc)
  case Nil
  then show ?case by simp
next
  case (Cons i starts)
  show ?case
  proof (cases "run_batch n_workers run i (take b (drop i fps))")
    case (Inl e)
    with Cons.prems show ?thesis by simp
  next
    case (Inr rs)
    obtain s1 acc1 where c: "count_batch_results rs (s, acc) = (s1, acc1)"
      by (cases "count_batch_results rs (s, acc)")
    from Inr c Cons.prems have "process_batches n_workers run b fps starts (s1, acc1) = (None, s', acc')"
      by simp
    from Cons.IH[OF this] count_batch_results_counters[OF c] run_batch_length[OF Inr]
    show ?thesis by simp
  qed
qed

lemma process_batches_total:
  "process_batches n_workers run b fps starts (s, acc) = (e, s', acc') \<Longrightarrow>
   total_files s' = total_files s"
proof (induction starts arbitrary: s acc)
  case Nil
  then show ?case by simp
next
  case (Cons i starts)
  show ?case
  proof (cases "run_batch n_workers run i (take b (drop i fps))")
    case (Inl e')
    with Cons.prems show ?thesis by simp
  next
    case (Inr rs)
    obtain s1 acc1 where c: "count_batch_results rs (s, acc) = (s1, acc1)"
      by (cases "count_batch_results rs (s, acc)")
    from Inr c Cons.prems have "process_batches n_workers run b fps starts (s1, acc1) = (e, s', acc')"
      by simp
    from Cons.IH[OF this] count_batch_results_counters[OF c] show ?thesis by simp
  qed
qed

lemma process_files_total:
  "total_files (fst (process_files setup_failure n_workers batch_size run session file_paths)) =
   total_files session"
proof (cases setup_failure)
  case (Some msg)
  then show ?thesis by (simp add: process_files_def)
next
  case None
  show ?thesis
  proof (cases "py_range (length file_paths) batch_size")
    case (Inl e)
    with None show ?thesis by (simp add: process_files_def)
  next
    case (Inr starts)
    obtain e s' acc' where p: "process_batches n_workers run (nat batch_size) file_paths starts
        (session, []) = (e, s', acc')"
      by (cases "process_batches n_workers run (nat batch_size) file_paths starts (session, [])")
    from process_batches_total[OF p] None Inr p show ?thesis
      by (cases e) (simp_all add: process_files_def)
  qed
qed

lemma process_files_completed:
  assumes "0 < batch_size"
    and "status (fst (process_files setup_failure n_workers batch_size run session file_paths)) = ''completed''"
  shows "processed_files (fst (process_files setup_failure n_workers batch_size run session file_paths)) +
         failed_files (fst (process_files setup_failure n_workers batch_size run session file_paths)) =
         processed_files session + failed_files session + int (length file_paths)"
proof (cases setup_failure)
  case (Some msg)
  with assms(2) show ?thesis by (simp add: process_files_def)
next
  case None
  let ?starts = "batch_starts (length file_paths) (nat batch_size)"
  have r: "py_range (length file_paths) batch_size = Inr ?starts"
    using assms(1) by (simp add: py_range_def)
  obtain e s' acc' where p: "process_batches n_workers run (nat batch_size) file_paths ?starts
      (session, []) = (e, s', acc')"
    by (cases "process_batches n_workers run (nat batch_size) file_paths ?starts (session, [])")
  show ?thesis
  proof (cases e)
    case (Some err)
    with None r p assms(2) show ?thesis by (simp add: process_files_def)
  next
    case None': None
    have b: "0 < nat batch_size" using assms(1) by simp
    have "sum_list (map (\<lambda>i. length (take (nat batch_size) (drop i file_paths))) ?starts) =
          dispatched (nat batch_size) file_paths (length ?starts)"
      by (simp add: dispatched_def)
    also have "\<dots> = length file_paths" by (rule dispatched_all[OF b])
    finally have all: "sum_list (map (\<lambda>i. length (take (nat batch_size) (drop i file_paths))) ?starts) =
          length file_paths" .
    from process_batches_completed[OF p[unfolded None']] all None r p None'
    show ?thesis by (simp add: process_files_def)
  qed
qed

lemma batch_lengths_le:
  "py_range (length (file_paths :: string list)) batch_size = Inr starts \<Longrightarrow>
   sum_list (map (\<lambda>i. length (take (nat batch_size) (drop i file_paths))) starts) \<le> length file_paths"
proof -
  assume r: "py_range (length file_paths) batch_size = Inr starts"
  show ?thesis
  proof (cases "0 < batch_size")
    case True
    then have b: "0 < nat batch_size" by simp
    from r True have "starts = batch_starts (length file_paths) (nat batch_size)"
      by (simp add: py_range_def)
    then have "sum_list (map (\<lambda>i. length (take (nat batch_size) (drop i file_paths))) starts) =
          dispatched (nat batch_size) file_paths (length (batch_starts (length file_paths) (nat batch_size)))"
      by (simp add: dispatched_def)
    with dispatched_all[OF b, of file_paths] show ?thesis by simp
  next
    case False
    with r have "starts = []" by (auto simp: py_range_def split: if_splits)
    then show ?thesis by simp
  qed
qed

lemma process_files_failed:
  assumes "status session \<noteq> ''failed''"
    and "status (fst (process_files setup_failure n_workers batch_size run session file_paths)) = ''failed''"
  shows "processed_files (fst (process_files setup_failure n_workers batch_size run session file_paths)) +
         failed_files (fst (process_files setup_failure n_workers batch_size run session file_paths)) \<le>
         processed_files session + failed_files session + int (length file_paths)"
proof (cases setup_failure)
  case (Some msg)
  then show ?thesis by (simp add: process_files_def)
next
  case None
  show ?thesis
  proof (cases "py_range (length file_paths) batch_size")
    case (Inl e)
    with None show ?thesis by (simp add: process_files_def)
  next
    case (Inr starts)
    obtain e s' acc' where p: "process_batches n_workers run (nat batch_size) file_paths starts
        (session, []) = (e, s', acc')"
      by (cases "process_batches n_workers run (nat batch_size) file_paths starts (session, [])")
    show ?thesis
    proof (cases e)
      case None': None
      from process_batches_completed[OF p[unfolded None']] batch_lengths_le[OF Inr]
      have "processed_files s' + failed_files s' \<le>
            processed_files session + failed_files session + int (length file_paths)" by simp
      with None Inr p None' show ?thesis by (simp add: process_files_def)
    next
      case (Some err)
      from process_batches_failure[OF p[unfolded Some]] have "s' = session" by simp
      with None Inr p Some show ?thesis by (simp add: process_files_def)
    qed
  qed
qed

lemma analyze_files_session:
  "python_files \<noteq> [] \<Longrightarrow>
   analyze_files sid name stype spath setup_failure n_workers batch_size run python_files =
     Inr (process_files setup_failure n_workers batch_size run
            (create_session sid name stype spath (int (length python_files))) python_files)"
  by (simp add: analyze_files_def)

text \<open>
  Claim C1, as amended. \<^verbatim>\<open>_process_files\<close> never changes \<^verbatim>\<open>total_files\<close>. Whenever the
  first \<open>k\<close> batches complete, they leave \<^verbatim>\<open>processed_files + failed_files\<close> increased by
  the number of files dispatched in them (the last conjunct); with at least one worker
  and a positive batch size they do complete, and that number is
  \<open>min (k * batch_size) (len file_paths)\<close>. For a session created with
  \<^verbatim>\<open>total_files = len(file_paths)\<close>: once the status is \<^verbatim>\<open>completed\<close> (with a positive batch
  size) \<^verbatim>\<open>processed_files + failed_files = total_files\<close>; once it is \<^verbatim>\<open>failed\<close> the sum is
  at most \<^verbatim>\<open>total_files\<close>.
\<close>

theorem session_counters_track_dispatched_files:
  "total_files (fst (process_files setup_failure n_workers batch_size run session file_paths)) =
     total_files session \<and>
   (0 < n_workers \<and> 0 < batch_size \<and>
    k \<le> length (batch_starts (length file_paths) (nat batch_size)) \<longrightarrow>
      (\<exists>s' rs. process_batches n_workers run (nat batch_size) file_paths
                  (take k (batch_starts (length file_paths) (nat batch_size))) (session, []) =
                  (None, s', rs) \<and>
               processed_files s' + failed_files s' =
                 processed_files session + failed_files session +
                 int (dispatched (nat batch_size) file_paths k) \<and>
               dispatched (nat batch_size) file_paths k = min (k * nat batch_size) (length file_paths) \<and>
               total_files s' = total_files session)) \<and>
   (0 < batch_size \<and>
    status (fst (process_files setup_failure n_workers batch_size run
                   (create_session sid name stype spath (int (length file_paths))) file_paths)) =
      ''completed'' \<longrightarrow>
      processed_files (fst (process_files setup_failure n_workers batch_size run
                   (create_session sid name stype spath (int (length file_paths))) file_paths)) +
      failed_files (fst (process_files setup_failure n_workers batch_size run
                   (create_session sid name stype spath (int (length file_paths))) file_paths)) =
      total_files (fst (process_files setup_failure n_workers batch_size run
                   (create_session sid name stype spath (int (length file_paths))) file_paths))) \<and>
   (status (fst (process_files setup_failure n_workers batch_size run
                   (create_session sid name stype spath (int (length file_paths))) file_paths)) =
      ''failed'' \<longrightarrow>
      processed_files (fst (process_files setup_failure n_workers batch_size run
                   (create_session sid name stype spath (int (length file_paths))) file_paths)) +
      failed_files (fst (process_files setup_failure n_workers batch_size run
                   (create_session sid name stype spath (int (length file_paths))) file_paths)) \<le>
      total_files (fst (process_files setup_failure n_workers batch_size run
                   (create_session sid name stype spath (int (length file_paths))) file_paths))) \<and>
   (py_range (length file_paths) batch_size = Inr starts \<and>
    process_batches n_workers run (nat batch_size) file_paths (take k starts) (session, []) =
      (None, after_k, results_k) \<longrightarrow>
      processed_files after_k + failed_files after_k =
        processed_files session + failed_files session +
        int (sum_list (map (\<lambda>i. length (take (nat batch_size) (drop i file_paths))) (take k starts))) \<and>
      total_files after_k = total_files session)"
proof (intro conjI impI)
  show "total_files (fst (process_files setup_failure n_workers batch_size run session file_paths)) =
     total_files session" by (rule process_files_total)
next
  assume h: "0 < n_workers \<and> 0 < batch_size \<and>
    k \<le> length (batch_starts (length file_paths) (nat batch_size))"
  let ?starts = "take k (batch_starts (length file_paths) (nat batch_size))"
  from h have w: "0 < n_workers" and b: "0 < nat batch_size"
    and k: "k \<le> length (batch_starts (length file_paths) (nat batch_size))" by auto
  from process_batches_counters[OF w, of run "nat batch_size" file_paths ?starts session "[]"]
  obtain s' rs where p: "process_batches n_workers run (nat batch_size) file_paths ?starts (session, []) =
      (None, s', rs)"
    and c: "processed_files s' + failed_files s' = processed_files session + failed_files session +
       int (sum_list (map (\<lambda>i. length (take (nat batch_size) (drop i file_paths))) ?starts))"
    and t: "total_files s' = total_files session" by blast
  from c have "processed_files s' + failed_files s' = processed_files session + failed_files session +
       int (dispatched (nat batch_size) file_paths k)" by (simp add: dispatched_def)
  with p t dispatched_eq[OF b k]
  show "\<exists>s' rs. process_batches n_workers run (nat batch_size) file_paths ?starts (session, []) =
                  (None, s', rs) \<and>
               processed_files s' + failed_files s' =
                 processed_files session + failed_files session +
                 int (dispatched (nat batch_size) file_paths k) \<and>
               dispatched (nat batch_size) file_paths k = min (k * nat batch_size) (length file_paths) \<and>
               total_files s' = total_files session" by blast
next
  let ?s0 = "create_session sid name stype spath (int (length file_paths))"
  let ?final = "fst (process_files setup_failure n_workers batch_size run ?s0 file_paths)"
  assume h: "0 < batch_size \<and> status ?final = ''completed''"
  then have "processed_files ?final + failed_files ?final =
      processed_files ?s0 + failed_files ?s0 + int (length file_paths)"
    using process_files_completed by blast
  moreover have "total_files ?final = total_files ?s0" by (rule process_files_total)
  ultimately show "processed_files ?final + failed_files ?final = total_files ?final"
    by (simp add: create_session_def)
next
  let ?s0 = "create_session sid name stype spath (int (length file_paths))"
  let ?final = "fst (process_files setup_failure n_workers batch_size run ?s0 file_paths)"
  assume h: "status ?final = ''failed''"
  have "status ?s0 \<noteq> ''failed''" by (simp add: create_session_def)
  from process_files_failed[OF this h]
  have "processed_files ?final + failed_files ?final \<le>
      processed_files ?s0 + failed_files ?s0 + int (length file_paths)" .
  moreover have "total_files ?final = total_files ?s0" by (rule process_files_total)
  ultimately show "processed_files ?final + failed_files ?final \<le> total_files ?final"
    by (simp add: create_session_def)
next
  assume h: "py_range (length file_paths) batch_size = Inr starts \<and>
    process_batches n_workers run (nat batch_size) file_paths (take k starts) (session, []) =
      (None, after_k, results_k)"
  then have p: "process_batches n_workers run (nat batch_size) file_paths (take k starts) (session, []) =
      (None, after_k, results_k)" by simp
  from process_batches_completed[OF p]
  show "processed_files after_k + failed_files after_k =
        processed_files session + failed_files session +
        int (sum_list (map (\<lambda>i. length (take (nat batch_size) (drop i file_paths))) (take k starts)))"
    by simp
  from process_batches_completed[OF p]
  show "total_files after_k = total_files session" by simp
qed

text \<open>C1 (amended) at three files, two workers and batches of two, where the task of the
  second file raises and the third file fails its analysis.\<close>

theorem session_counters_track_dispatched_files_witness:
  "(\<exists>s' rs. process_batches 2
        (\<lambda>k w path. if k = 1 then TaskException ''boom''
           else TaskResult \<lparr>worker_id = ''worker'', result_file_path = path, success = (k = 0),
                  result_violations = PList [], processing_time = 0, error_message = None\<rparr>)
        (nat 2) [''a.py'', ''b.py'', ''c.py'']
        (take 1 (batch_starts (length [''a.py'', ''b.py'', ''c.py'']) (nat 2)))
        (create_session ''s1'' ''run'' ''folder'' ''/repo'' (int (length [''a.py'', ''b.py'', ''c.py''])), []) =
          (None, s', rs) \<and>
      processed_files s' + failed_files s' =
        processed_files (create_session ''s1'' ''run'' ''folder'' ''/repo'' (int (length [''a.py'', ''b.py'', ''c.py'']))) +
        failed_files (create_session ''s1'' ''run'' ''folder'' ''/repo'' (int (length [''a.py'', ''b.py'', ''c.py'']))) +
        int (dispatched (nat 2) [''a.py'', ''b.py'', ''c.py''] 1) \<and>
      dispatched (nat 2) [''a.py'', ''b.py'', ''c.py''] 1 = min (1 * nat 2) (length [''a.py'', ''b.py'', ''c.py'']) \<and>
      total_files s' =
        total_files (create_session ''s1'' ''run'' ''folder'' ''/repo'' (int (length [''a.py'', ''b.py'', ''c.py''])))) \<and>
   processed_files (fst (process_files None 2 2
        (\<lambda>k w path. if k = 1 then TaskException ''boom''
           else TaskResult \<lparr>worker_id = ''worker'', result_file_path = path, success = (k = 0),
                  result_violations = PList [], processing_time = 0, error_message = None\<rparr>)
        (create_session ''s1'' ''run'' ''folder'' ''/repo'' (int (length [''a.py'', ''b.py'', ''c.py''])))
        [''a.py'', ''b.py'', ''c.py''])) +
   failed_files (fst (process_files None 2 2
        (\<lambda>k w path. if k = 1 then TaskException ''boom''
           else TaskResult \<lparr>worker_id = ''worker'', result_file_path = path, success = (k = 0),
                  result_violations = PList [], processing_time = 0, error_message = None\<rparr>)
        (create_session ''s1'' ''run'' ''folder'' ''/repo'' (int (length [''a.py'', ''b.py'', ''c.py''])))
        [''a.py'', ''b.py'', ''c.py''])) =
   total_files (fst (process_files None 2 2
        (\<lambda>k w path. if k = 1 then TaskException ''boom''
           else TaskResult \<lparr>worker_id = ''worker'', result_file_path = path, success = (k = 0),
                  result_violations = PList [], processing_time = 0, error_message = None\<rparr>)
        (create_session ''s1'' ''run'' ''folder'' ''/repo'' (int (length [''a.py'', ''b.py'', ''c.py''])))
        [''a.py'', ''b.py'', ''c.py'']))"
proof -
  let ?fps = "[''a.py'', ''b.py'', ''c.py'']"
  let ?run = "\<lambda>(k::nat) (w::nat) path. if k = 1 then TaskException ''boom''
           else TaskResult \<lparr>worker_id = ''worker'', result_file_path = path, success = (k = 0),
                  result_violations = PList [], processing_time = 0, error_message = None\<rparr>"
  let ?s0 = "create_session ''s1'' ''run'' ''folder'' ''/repo'' (int (length ?fps))"
  note t = session_counters_track_dispatched_files[where setup_failure = None and n_workers = 2
      and batch_size = 2 and run = ?run and session = ?s0 and file_paths = ?fps and k = 1
      and sid = "''s1''" and name = "''run''" and stype = "''folder''" and spath = "''/repo''"]
  have h2: "0 < (2::nat) \<and> 0 < (2::int) \<and> 1 \<le> length (batch_starts (length ?fps) (nat 2))"
    by code_simp
  have h3: "0 < (2::int) \<and>
    status (fst (process_files None 2 2 ?run ?s0 ?fps)) = ''completed''"
    by code_simp
  from t have c2: "0 < (2::nat) \<and> 0 < (2::int) \<and> 1 \<le> length (batch_starts (length ?fps) (nat 2)) \<longrightarrow>
      (\<exists>s' rs. process_batches 2 ?run (nat 2) ?fps (take 1 (batch_starts (length ?fps) (nat 2))) (?s0, []) =
          (None, s', rs) \<and>
      processed_files s' + failed_files s' =
        processed_files ?s0 + failed_files ?s0 + int (dispatched (nat 2) ?fps 1) \<and>
      dispatched (nat 2) ?fps 1 = min (1 * nat 2) (length ?fps) \<and>
      total_files s' = total_files ?s0)"
    by (rule conjunct1[OF conjunct2])
  from t have c3: "0 < (2::int) \<and>
    status (fst (process_files None 2 2 ?run ?s0 ?fps)) = ''completed'' \<longrightarrow>
    processed_files (fst (process_files None 2 2 ?run ?s0 ?fps)) +
    failed_files (fst (process_files None 2 2 ?run ?s0 ?fps)) =
    total_files (fst (process_files None 2 2 ?run ?s0 ?fps))"
    by (rule conjunct1[OF conjunct2[OF conjunct2]])
  from mp[OF c2 h2] mp[OF c3 h3] show ?thesis by (rule conjI)
qed

text \<open>
  C1 as stated fails: when the creation of the file records raises, the session of one
  file ends with status \<^verbatim>\<open>failed\<close> and \<^verbatim>\<open>processed_files + failed_files = 0\<close>, not 1.
\<close>

theorem failed_session_counters_counterexample:
  "status (fst (process_files (Some ''database unreachable'') 4 10
       (\<lambda>k w path. TaskException ''unused'')
       (create_session ''s1'' ''run'' ''folder'' ''/repo'' (int (length [''a.py''])))
       [''a.py''])) = ''failed'' \<and>
   processed_files (fst (process_files (Some ''database unreachable'') 4 10
       (\<lambda>k w path. TaskException ''unused'')
       (create_session ''s1'' ''run'' ''folder'' ''/repo'' (int (length [''a.py''])))
       [''a.py''])) +
   failed_files (fst (process_files (Some ''database unreachable'') 4 10
       (\<lambda>k w path. TaskException ''unused'')
       (create_session ''s1'' ''run'' ''folder'' ''/repo'' (int (length [''a.py''])))
       [''a.py''])) = 0 \<and>
   total_files (fst (process_files (Some ''database unreachable'') 4 10
       (\<lambda>k w path. TaskException ''unused'')
       (create_session ''s1'' ''run'' ''folder'' ''/repo'' (int (length [''a.py''])))
       [''a.py''])) = 1"
  by (simp add: process_files_def create_session_def)

section \<open>Properties of diff rendering and manual patch application\<close>

lemma split_str_from_startswith:
  "sep \<noteq> [] \<Longrightarrow> startswith s sep \<Longrightarrow> length (split_str_from sep 0 s) \<ge> 2"
proof (cases s)
  case Nil
  then show "sep \<noteq> [] \<Longrightarrow> startswith s sep \<Longrightarrow> ?thesis" by (simp add: startswith_def)
next
  case (Cons c cs)
  have ne: "split_str_from sep k t \<noteq> []" for k t
    by (induction sep k t rule: split_str_from.induct) (auto split: list.splits)
  assume "sep \<noteq> []" "startswith s sep"
  then show ?thesis using Cons ne[of "length sep - 1" cs]
    by (cases "split_str_from sep (length sep - 1) cs") auto
qed

lemma split_at_marker_in_range:
  "startswith line ''@@'' \<Longrightarrow> 1 < length (split_str ''@@'' line)"
  using split_str_from_startswith[of "''@@''" line] by (simp add: split_str_def)

lemma rendered_headers_share_a_line:
  assumes "groups \<noteq> []"
  shows "\<exists>rest. generate_unified_diff groups path original_content modified_content =
           ''--- a/'' @ path @ ''+++ b/'' @ path @ rest"
  using assms by (simp add: generate_unified_diff_def unified_diff_def Let_def)

lemma replace_deleted_no_match:
  "\<forall>line\<in>set lines. \<forall>del_line\<in>set deletions. strip line \<noteq> strip del_line \<Longrightarrow>
   replace_deleted lines deletions additions = lines"
  by (induction lines) (auto simp: list_ex_iff)

lemma replace_deleted_after_match:
  "replace_deleted lines deletions [] =
   filter (\<lambda>line. \<not> list_ex (\<lambda>del_line. strip line = strip del_line) deletions) lines"
  by (induction lines) auto

lemma replace_deleted_shape:
  "replace_deleted lines deletions additions =
   takeWhile (\<lambda>line. \<not> list_ex (\<lambda>del_line. strip line = strip del_line) deletions) lines @
   (if list_ex (\<lambda>line. list_ex (\<lambda>del_line. strip line = strip del_line) deletions) lines
    then additions @
         filter (\<lambda>line. \<not> list_ex (\<lambda>del_line. strip line = strip del_line) deletions)
           (dropWhile (\<lambda>line. \<not> list_ex (\<lambda>del_line. strip line = strip del_line) deletions) lines)
    else [])"
  by (induction lines) (auto simp: replace_deleted_after_match)

text \<open>
  Claim C2 at the texts of the repository's own test of \<^verbatim>\<open>_generate_unified_diff\<close>, which
  differ in their second line. The rendered diff has its two file headers and its hunk
  header on one line with the first context line, since the headers end in the empty
  \<^verbatim>\<open>lineterm\<close>; \<^verbatim>\<open>_parse_diff_content\<close> reads that line as a file header and returns no file
  and no hunk, so neither the deletion \<^verbatim>\<open>line 2\<close> nor the addition \<^verbatim>\<open>modified line 2\<close> is
  reconstructed. The same diff with each header on a line of its own parses into one hunk
  with both.
\<close>

theorem render_then_parse_loses_hunks:
  "generate_unified_diff [[(Equal, 0, 1, 0, 1), (Replace, 1, 2, 1, 2), (Equal, 2, 3, 2, 3)]]
     ''test.py'' ''line 1\<newline>line 2\<newline>line 3'' ''line 1\<newline>modified line 2\<newline>line 3'' =
     ''--- a/test.py+++ b/test.py@@ -1,3 +1,3 @@ line 1\<newline>-line 2\<newline>+modified line 2\<newline> line 3'' \<and>
   parse_diff_content
     (generate_unified_diff [[(Equal, 0, 1, 0, 1), (Replace, 1, 2, 1, 2), (Equal, 2, 3, 2, 3)]]
        ''test.py'' ''line 1\<newline>line 2\<newline>line 3'' ''line 1\<newline>modified line 2\<newline>line 3'') = [] \<and>
   parse_diff_content
     ''--- a/test.py\<newline>+++ b/test.py\<newline>@@ -1,3 +1,3 @@\<newline> line 1\<newline>-line 2\<newline>+modified line 2\<newline> line 3'' =
     [(''test.py'',
       [\<lparr>hunk_type = ''hunk'', old_range = ''1,3'', new_range = ''1,3'',
         hunk_lines = ['' line 1'', ''-line 2'', ''+modified line 2'', '' line 3'']\<rparr>])]"
  by code_simp

text \<open>The parsed result of the rendered diff alone.\<close>

theorem render_then_parse_loses_hunks_witness:
  "parse_diff_content
     (generate_unified_diff [[(Equal, 0, 1, 0, 1), (Replace, 1, 2, 1, 2), (Equal, 2, 3, 2, 3)]]
        ''test.py'' ''line 1\<newline>line 2\<newline>line 3'' ''line 1\<newline>modified line 2\<newline>line 3'') = []"
  by (rule conjunct1[OF conjunct2[OF render_then_parse_loses_hunks]])

text \<open>
  Claim C3, as amended. \<^verbatim>\<open>_apply_file_changes\<close> returns \<^verbatim>\<open>True\<close> exactly when the file exists
  and can be read and written, whatever its hunks, and then writes the lines after all
  hunks. A hunk none of whose deletions matches a line leaves the lines as they are. In
  general \<^verbatim>\<open>_apply_hunk\<close> keeps the lines before the first match, puts the additions there
  and drops every later line that matches a deletion.
\<close>

theorem apply_file_changes_ignores_hunk_matches:
  "(fst (apply_file_changes tree path file_changes) \<longleftrightarrow> (\<exists>text. tree path = Some (Writable text))) \<and>
   (tree path = Some (Writable text) \<longrightarrow>
      apply_file_changes tree path file_changes =
        (True, tree(path \<mapsto> Writable (concat (apply_hunks (readlines text) file_changes))))) \<and>
   ((\<forall>line\<in>set lines. \<forall>del_line\<in>set (snd (snd (classify_hunk_lines (hunk_lines h)))).
        strip line \<noteq> strip del_line) \<longrightarrow>
      apply_hunk lines h = lines) \<and>
   apply_hunk lines h =
     takeWhile (\<lambda>line. \<not> list_ex (\<lambda>del_line. strip line = strip del_line)
                          (snd (snd (classify_hunk_lines (hunk_lines h))))) lines @
     (if list_ex (\<lambda>line. list_ex (\<lambda>del_line. strip line = strip del_line)
                          (snd (snd (classify_hunk_lines (hunk_lines h))))) lines
      then fst (snd (classify_hunk_lines (hunk_lines h))) @
           filter (\<lambda>line. \<not> list_ex (\<lambda>del_line. strip line = strip del_line)
                          (snd (snd (classify_hunk_lines (hunk_lines h)))))
             (dropWhile (\<lambda>line. \<not> list_ex (\<lambda>del_line. strip line = strip del_line)
                          (snd (snd (classify_hunk_lines (hunk_lines h))))) lines)
      else [])"
proof (intro conjI impI)
  show "fst (apply_file_changes tree path file_changes) \<longleftrightarrow> (\<exists>text. tree path = Some (Writable text))"
    by (auto simp: apply_file_changes_def split: option.splits file_entry.splits)
next
  assume "tree path = Some (Writable text)"
  then show "apply_file_changes tree path file_changes =
        (True, tree(path \<mapsto> Writable (concat (apply_hunks (readlines text) file_changes))))"
    by (simp add: apply_file_changes_def)
next
  assume h: "\<forall>line\<in>set lines. \<forall>del_line\<in>set (snd (snd (classify_hunk_lines (hunk_lines h)))).
        strip line \<noteq> strip del_line"
  obtain c a d where cl: "classify_hunk_lines (hunk_lines h) = (c, a, d)"
    by (cases "classify_hunk_lines (hunk_lines h)") auto
  with h have "\<forall>line\<in>set lines. \<forall>del_line\<in>set d. strip line \<noteq> strip del_line" by simp
  from replace_deleted_no_match[OF this] cl show "apply_hunk lines h = lines"
    by (simp add: apply_hunk_def)
next
  obtain c a d where cl: "classify_hunk_lines (hunk_lines h) = (c, a, d)"
    by (cases "classify_hunk_lines (hunk_lines h)") auto
  then have "apply_hunk lines h = replace_deleted lines d a" by (simp add: apply_hunk_def)
  then show "apply_hunk lines h =
     takeWhile (\<lambda>line. \<not> list_ex (\<lambda>del_line. strip line = strip del_line)
                          (snd (snd (classify_hunk_lines (hunk_lines h))))) lines @
     (if list_ex (\<lambda>line. list_ex (\<lambda>del_line. strip line = strip del_line)
                          (snd (snd (classify_hunk_lines (hunk_lines h))))) lines
      then fst (snd (classify_hunk_lines (hunk_lines h))) @
           filter (\<lambda>line. \<not> list_ex (\<lambda>del_line. strip line = strip del_line)
                          (snd (snd (classify_hunk_lines (hunk_lines h)))))
             (dropWhile (\<lambda>line. \<not> list_ex (\<lambda>del_line. strip line = strip del_line)
                          (snd (snd (classify_hunk_lines (hunk_lines h))))) lines)
      else [])"
    unfolding cl by (simp only: replace_deleted_shape[of lines d a] fst_conv snd_conv)
qed

text \<open>C3 (amended) at a one-line file and a hunk that deletes a line the file does not
  have.\<close>

theorem apply_file_changes_ignores_hunk_matches_witness:
  "apply_file_changes [''a.py'' \<mapsto> Writable ''a\<newline>''] ''a.py''
      [\<lparr>hunk_type = ''hunk'', old_range = ''1'', new_range = ''1'', hunk_lines = [''-b'', ''+c'']\<rparr>] =
     (True, [''a.py'' \<mapsto> Writable ''a\<newline>''](''a.py'' \<mapsto> Writable (concat (apply_hunks (readlines ''a\<newline>'')
        [\<lparr>hunk_type = ''hunk'', old_range = ''1'', new_range = ''1'', hunk_lines = [''-b'', ''+c'']\<rparr>])))) \<and>
   apply_hunk (readlines ''a\<newline>'')
      \<lparr>hunk_type = ''hunk'', old_range = ''1'', new_range = ''1'', hunk_lines = [''-b'', ''+c'']\<rparr> =
     readlines ''a\<newline>''"
proof -
  let ?h = "\<lparr>hunk_type = ''hunk'', old_range = ''1'', new_range = ''1'', hunk_lines = [''-b'', ''+c'']\<rparr>"
  let ?tree = "[''a.py'' \<mapsto> Writable ''a\<newline>'']"
  note t = apply_file_changes_ignores_hunk_matches[of ?tree "''a.py''" "[?h]" "''a\<newline>''" "readlines ''a\<newline>''" ?h]
  have h1: "?tree ''a.py'' = Some (Writable ''a\<newline>'')" by simp
  have h2: "\<forall>line\<in>set (readlines ''a\<newline>''). \<forall>del_line\<in>set (snd (snd (classify_hunk_lines (hunk_lines ?h)))).
        strip line \<noteq> strip del_line" by code_simp
  from t have c2: "?tree ''a.py'' = Some (Writable ''a\<newline>'') \<longrightarrow>
      apply_file_changes ?tree ''a.py'' [?h] =
        (True, ?tree(''a.py'' \<mapsto> Writable (concat (apply_hunks (readlines ''a\<newline>'') [?h]))))"
    by (rule conjunct1[OF conjunct2])
  from t have c3: "(\<forall>line\<in>set (readlines ''a\<newline>''). \<forall>del_line\<in>set (snd (snd (classify_hunk_lines (hunk_lines ?h)))).
        strip line \<noteq> strip del_line) \<longrightarrow> apply_hunk (readlines ''a\<newline>'') ?h = readlines ''a\<newline>''"
    by (rule conjunct1[OF conjunct2[OF conjunct2]])
  from mp[OF c2 h1] mp[OF c3 h2] show ?thesis by (rule conjI)
qed

text \<open>
  C3 as stated fails: a hunk whose deleted line occurs twice in the file removes both
  occurrences and the apply returns \<^verbatim>\<open>True\<close>; a hunk whose deleted line does not occur
  changes nothing and the apply returns \<^verbatim>\<open>True\<close> as well.
\<close>

theorem unmatched_hunk_reported_as_success_counterexample:
  "fst (apply_file_changes [''a.py'' \<mapsto> Writable ''x = 1\<newline>y = 2\<newline>x = 1\<newline>''] ''a.py''
      [\<lparr>hunk_type = ''hunk'', old_range = ''1'', new_range = ''1'',
        hunk_lines = [''-x = 1'', ''+x = 2'']\<rparr>]) = True \<and>
   apply_hunks (readlines ''x = 1\<newline>y = 2\<newline>x = 1\<newline>'')
      [\<lparr>hunk_type = ''hunk'', old_range = ''1'', new_range = ''1'',
        hunk_lines = [''-x = 1'', ''+x = 2'']\<rparr>] = [''x = 2'', ''y = 2\<newline>''] \<and>
   fst (apply_file_changes [''a.py'' \<mapsto> Writable ''a\<newline>''] ''a.py''
      [\<lparr>hunk_type = ''hunk'', old_range = ''1'', new_range = ''1'',
        hunk_lines = [''-b'', ''+c'']\<rparr>]) = True \<and>
   apply_hunks (readlines ''a\<newline>'')
      [\<lparr>hunk_type = ''hunk'', old_range = ''1'', new_range = ''1'',
        hunk_lines = [''-b'', ''+c'']\<rparr>] = [''a\<newline>'']"
  by code_simp

end
